theory Spec2Isabelle
  imports Main
begin

section \<open>Conventions\<close>

text \<open>
  This theory embeds the two programs of the repository, \<^verbatim>\<open>acc2tax.c\<close> and
  \<^verbatim>\<open>gi2tax.c\<close>, as HOL functions.

  \<^item> A file is the list of its bytes (\<open>string\<close>); a C string is a byte list without NUL.
  \<^item> The platform is the one the tools are built for: \<open>int\<close> and \<open>unsigned int\<close> have 32
    bits, \<open>long\<close> and pointers 64, plain \<open>char\<close> is signed, and \<open>atoi\<close> is the C
    library's \<open>strtol\<close> cut to an \<open>int\<close>.
  \<^item> \<open>int\<close> and \<open>long\<close> values are HOL integers. Where the source converts between
    widths, the conversion is written out (\<open>int32_of\<close>, \<open>uint_of\<close>). An \<open>unsigned int\<close>
    is the HOL integer between 0 and \<open>2 ^ 32\<close> that it denotes.
  \<^item> A stream (\<open>FILE*\<close>) over a fixed file is its read position, a \<open>nat\<close>.
  \<^item> Where C leaves the behaviour undefined (a null pointer handed to \<open>strcmp\<close>, an
    access beyond an array, \<open>abs\<close> of the least \<open>int\<close>) the model returns a \<open>fault\<close>,
    and says nothing about what the program does from there on.
  \<^item> The automatic arrays \<open>t\<close> and \<open>buffer\<close> of \<open>process_request_file\<close> are printed and
    parsed on some paths before anything was written to them. The strings they hold on
    entry are parameters of the model.
  \<^item> The automatic array \<open>fields\<close> of \<open>get_name_fields\<close> is copied from beyond the rows
    that the call has written when a line is short of fields. Such a row holds what the
    call before left in it; what the rows hold at the first call is a parameter of the
    model.
  \<^item> \<open>malloc\<close> and \<open>fopen\<close> are taken to succeed.
\<close>

datatype fault =
    NullPointer          \<comment> \<open>\<open>strcmp\<close> on the NULL that \<open>strtok\<close> returned\<close>
  | AbsOverflow          \<comment> \<open>\<open>abs(INT_MIN)\<close>\<close>
  | NodeListOverflow     \<comment> \<open>write beyond \<open>node_list[1024]\<close>\<close>
  | TaxonomyOverflow     \<comment> \<open>\<open>strcat\<close> beyond the 1024 bytes of the lineage buffer\<close>
  | NodesOutOfRange      \<comment> \<open>index beyond the \<open>nodes\<close> array\<close>
  | NamesOutOfRange      \<comment> \<open>index beyond the \<open>names\<close> array\<close>
  | FieldsOverflow       \<comment> \<open>write beyond \<open>fields[16][128]\<close>, or beyond the 128 bytes a row is copied to\<close>

section \<open>The C library, as far as the programs use it\<close>

abbreviation NUL :: char where "NUL \<equiv> CHR 0x00"
abbreviation TAB :: char where "TAB \<equiv> CHR 0x09"
abbreviation NL :: char where "NL \<equiv> CHR 0x0A"

definition INT_MIN :: int where "INT_MIN = - 2147483648"
definition LONG_MAX :: int where "LONG_MAX = 9223372036854775807"
definition LONG_MIN :: int where "LONG_MIN = - 9223372036854775808"

text \<open>Conversion of an integer value to \<open>int\<close> (two's complement, 32 bits).\<close>

definition int32_of :: "int \<Rightarrow> int" where
  "int32_of x = (x + 2147483648) mod 4294967296 - 2147483648"

text \<open>Conversion of an \<open>int\<close> to \<open>unsigned int\<close>, and back.\<close>

definition uint_of :: "int \<Rightarrow> int" where
  "uint_of x = x mod 4294967296"

definition int_of_uint :: "int \<Rightarrow> int" where
  "int_of_uint u = int32_of u"

text \<open>C's division truncates towards zero.\<close>

definition c_div :: "int \<Rightarrow> int \<Rightarrow> int" where
  "c_div a b = (if (a < 0) = (b < 0) then \<bar>a\<bar> div \<bar>b\<bar> else - (\<bar>a\<bar> div \<bar>b\<bar>))"

text \<open>The C string held in a buffer: the bytes before the first NUL.\<close>

definition cstr :: "string \<Rightarrow> string" where
  "cstr bs = takeWhile (\<lambda>c. c \<noteq> NUL) bs"

text \<open>
  \<open>strcmp\<close> compares bytes as \<open>unsigned char\<close>; only the sign of the result is
  specified, the model returns the difference of the first two bytes that differ.
\<close>

fun strcmp :: "string \<Rightarrow> string \<Rightarrow> int" where
  "strcmp [] [] = 0"
| "strcmp [] (y # ys) = - of_char y"
| "strcmp (x # xs) [] = of_char x"
| "strcmp (x # xs) (y # ys) = (if x = y then strcmp xs ys else of_char x - of_char y)"

text \<open>
  \<open>strtok\<close> with the delimiter set \<open>"\t"\<close>, the only one the programs use. The argument
  is the string the scan starts from; the result is the token and the string the next
  call \<open>strtok(NULL, "\t")\<close> starts from, or \<open>None\<close> for NULL (after which every further
  call returns NULL as well).
\<close>

definition strtok :: "string \<Rightarrow> (string \<times> string) option" where
  "strtok s =
     (let s1 = dropWhile (\<lambda>c. c = TAB) s
      in if s1 = [] then None
         else Some (takeWhile (\<lambda>c. c \<noteq> TAB) s1,
                    drop 1 (dropWhile (\<lambda>c. c \<noteq> TAB) s1)))"

text \<open>
  The C string a buffer holds after \<open>strtok(buffer, "\t")\<close>: the call overwrites the
  delimiter that ends the first token with NUL.
\<close>

definition after_strtok :: "string \<Rightarrow> string" where
  "after_strtok s =
     takeWhile (\<lambda>c. c = TAB) s @ takeWhile (\<lambda>c. c \<noteq> TAB) (dropWhile (\<lambda>c. c = TAB) s)"

text \<open>
  \<open>atoi\<close> is \<open>(int) strtol(s, NULL, 10)\<close>: white space, an optional sign, decimal digits;
  \<open>strtol\<close> saturates at the bounds of \<open>long\<close>.
\<close>

definition isspace :: "char \<Rightarrow> bool" where
  "isspace c = (c = CHR 0x20 \<or> c = TAB \<or> c = NL \<or> c = CHR 0x0B \<or> c = CHR 0x0C \<or> c = CHR 0x0D)"

definition isdigit :: "char \<Rightarrow> bool" where
  "isdigit c = (48 \<le> (of_char c :: int) \<and> (of_char c :: int) \<le> 57)"

fun digits_value :: "int \<Rightarrow> string \<Rightarrow> int" where
  "digits_value acc [] = acc"
| "digits_value acc (c # cs) =
     (if isdigit c then digits_value (10 * acc + (of_char c - 48)) cs else acc)"

definition strtol :: "string \<Rightarrow> int" where
  "strtol s =
     (let s1 = dropWhile isspace s
      in case s1 of
           [] \<Rightarrow> 0
         | c # r \<Rightarrow>
             if c = CHR ''-'' then max LONG_MIN (- digits_value 0 r)
             else if c = CHR ''+'' then min LONG_MAX (digits_value 0 r)
             else min LONG_MAX (digits_value 0 s1))"

definition atoi :: "string \<Rightarrow> int" where
  "atoi s = int32_of (strtol s)"

text \<open>
  \<open>fgetc\<close> at read position \<open>p\<close> of the file \<open>f\<close>: the byte and the next position, or
  \<open>None\<close> (EOF) with the position unchanged.
\<close>

definition fgetc :: "string \<Rightarrow> nat \<Rightarrow> char option \<times> nat" where
  "fgetc f p = (if p < length f then (Some (f ! p), p + 1) else (None, p))"

text \<open>The bytes up to and including the first newline.\<close>

fun upto_newline :: "string \<Rightarrow> string" where
  "upto_newline [] = []"
| "upto_newline (c # cs) = (if c = NL then [c] else c # upto_newline cs)"

text \<open>
  \<open>fgets(line, 1024, fp)\<close>: at most 1023 bytes, ending after a newline. At the end of the
  file it returns NULL (\<open>None\<close>) and leaves the buffer alone.
\<close>

definition fgets :: "string \<Rightarrow> nat \<Rightarrow> string option \<times> nat" where
  "fgets f p =
     (if length f \<le> p then (None, p)
      else (let chunk = upto_newline (take 1023 (drop p f))
            in (Some chunk, p + length chunk)))"

section \<open>The accession resolver (acc2tax.c)\<close>

subsection \<open>\<open>get_closest_record\<close>\<close>

text \<open>
  The loop \<^verbatim>\<open>while (pos >= 0) { fseek(acc_fp, pos, SEEK_SET); pos--; c = fgetc(acc_fp);
  if (c == '\n') break; }\<close>. The result is the read position of \<open>acc_fp\<close> when the loop
  is left.
\<close>

function get_closest_scan :: "string \<Rightarrow> int \<Rightarrow> nat \<Rightarrow> nat" where
  "get_closest_scan f pos fp =
     (if 0 \<le> pos
      then (if fst (fgetc f (nat pos)) = Some NL then snd (fgetc f (nat pos))
            else get_closest_scan f (pos - 1) (snd (fgetc f (nat pos))))
      else fp)"
  by pat_completeness auto
termination
  by (relation "measure (\<lambda>(f, pos, fp). nat (pos + 1))") auto

declare get_closest_scan.simps [simp del]

text \<open>
  \<open>get_closest_record(pos, line)\<close>: the scan, then \<open>fgets(line, 1024, acc_fp)\<close>. The state
  is the read position of \<open>acc_fp\<close> and the C string in \<open>line\<close>.
\<close>

definition get_closest_record :: "string \<Rightarrow> int \<Rightarrow> nat \<Rightarrow> string \<Rightarrow> nat \<times> string" where
  "get_closest_record f pos fp line =
     (let fp1 = get_closest_scan f pos fp
      in case fgets f fp1 of
           (None, fp2) \<Rightarrow> (fp2, line)
         | (Some chunk, fp2) \<Rightarrow> (fp2, cstr chunk))"

subsection \<open>\<open>split_fields\<close>\<close>

record fields =
  f_accession :: "string option"
  f_version :: "string option"
  f_taxid :: int
  f_gi :: int

definition split_fields :: "string \<Rightarrow> fields" where
  "split_fields line =
     (case strtok line of
        None \<Rightarrow> \<lparr>f_accession = None, f_version = None, f_taxid = 0, f_gi = 0\<rparr>
      | Some (accession, r1) \<Rightarrow>
          (case strtok r1 of
             None \<Rightarrow> \<lparr>f_accession = Some accession, f_version = None, f_taxid = 0, f_gi = 0\<rparr>
           | Some (version, r2) \<Rightarrow>
               (case strtok r2 of
                  None \<Rightarrow> \<lparr>f_accession = Some accession, f_version = Some version,
                            f_taxid = 0, f_gi = 0\<rparr>
                | Some (taxid_str, r3) \<Rightarrow>
                    (case strtok r3 of
                       None \<Rightarrow> \<lparr>f_accession = Some accession, f_version = Some version,
                                 f_taxid = atoi taxid_str, f_gi = 0\<rparr>
                     | Some (gi_str, r4) \<Rightarrow>
                         \<lparr>f_accession = Some accession, f_version = Some version,
                          f_taxid = atoi taxid_str, f_gi = atoi gi_str\<rparr>))))"

subsection \<open>\<open>find_accession\<close>\<close>

text \<open>
  One pass through the body of \<^verbatim>\<open>while (found == 0)\<close>. \<open>Break\<close> carries \<open>found\<close>
  and what the caller sees afterwards; \<open>Continue\<close> carries \<open>min\<close> and \<open>max\<close> into the
  next pass. \<open>abs\<close> takes an \<open>int\<close>, so the \<open>long\<close> difference is converted first.
\<close>

datatype step =
    Fault fault
  | Break int nat string fields
  | Continue int int nat string

definition find_accession_body ::
  "string \<Rightarrow> string \<Rightarrow> int \<Rightarrow> int \<Rightarrow> nat \<Rightarrow> string \<Rightarrow> step" where
  "find_accession_body f search_accession mn mx fp line =
     (let current_pos = mn + c_div (mx - mn) 2;
          rd = get_closest_record f current_pos fp line;
          flds = split_fields (snd rd);
          line' = after_strtok (snd rd)
      in case f_accession flds of
           None \<Rightarrow> Fault NullPointer
         | Some accession \<Rightarrow>
             (let similarity = strcmp accession search_accession;
                  found = (if similarity = 0 then 1 else 0);
                  mx' = (if similarity \<noteq> 0 \<and> 0 < similarity then current_pos else mx);
                  mn' = (if similarity \<noteq> 0 \<and> \<not> 0 < similarity \<and> similarity < 0
                         then current_pos else mn);
                  d = int32_of (mx' - mn')
              in if d = INT_MIN then Fault AbsOverflow
                 else if \<bar>d\<bar> < 20 then Break found (fst rd) line' flds
                 else if found = 0 then Continue mn' mx' (fst rd) line'
                 else Break found (fst rd) line' flds))"

partial_function (option) find_accession_loop ::
  "string \<Rightarrow> string \<Rightarrow> int \<Rightarrow> int \<Rightarrow> nat \<Rightarrow> string \<Rightarrow> (fault + int \<times> nat \<times> string \<times> fields) option"
where
  "find_accession_loop f search_accession mn mx fp line =
     (case find_accession_body f search_accession mn mx fp line of
        Fault e \<Rightarrow> Some (Inl e)
      | Break found fp' line' flds \<Rightarrow> Some (Inr (found, fp', line', flds))
      | Continue mn' mx' fp' line' \<Rightarrow> find_accession_loop f search_accession mn' mx' fp' line')"

text \<open>
  \<open>find_accession\<close> starts with \<open>min = 0\<close> and \<open>max = acc_file_size\<close>, the length that
  \<open>open_acc_file\<close> took from \<open>ftell\<close>.
\<close>

definition find_accession ::
  "string \<Rightarrow> string \<Rightarrow> nat \<Rightarrow> string \<Rightarrow> (fault + int \<times> nat \<times> string \<times> fields) option" where
  "find_accession f search_accession fp line =
     find_accession_loop f search_accession 0 (int (length f)) fp line"

declare find_accession_loop.simps [code]

section \<open>Tables and diagnostics\<close>

text \<open>
  What the programs print on \<open>stdout\<close> when something is wrong, one constructor for each
  message; the progress dots and the banners are left out.
\<close>

datatype diag =
    NoNameForNode int           \<comment> \<open>\<open>Error: no name for node %d\<close>\<close>
  | BadGI int                   \<comment> \<open>\<open>Error: bad GI (%d)\<close>\<close>
  | GINodeInvalid int int       \<comment> \<open>\<open>Error: GI (%d) node (%d) invalid\<close>\<close>
  | BadGIInRequestFile int      \<comment> \<open>\<open>Error: bad GI (%d) in request file\<close>\<close>
  | CouldntFind string          \<comment> \<open>\<open>Couldn't find: [%s]\<close>\<close>
  | GIOutOfRange int            \<comment> \<open>\<open>Error: GI out of range - %d\<close>\<close>
  | BadLineInGIFile             \<comment> \<open>\<open>Error: bad line in GI file\<close>\<close>
  | NodeIDOutOfRange int        \<comment> \<open>\<open>Error: Node ID out of range - %d\<close>\<close>

definition MAX_NAMES :: int where "MAX_NAMES = 2000000"

text \<open>
  \<open>nodes = calloc(MAX_NAMES, sizeof(int*))\<close> is read as an array of \<open>unsigned int\<close>: with
  pointers of 8 bytes it has room for twice \<open>MAX_NAMES\<close> entries.
\<close>

definition NODES_SIZE :: int where "NODES_SIZE = MAX_NAMES * 8 div 4"

text \<open>The globals of acc2tax.c that the functions below read.\<close>

record globals =
  is_accession :: bool
  is_gi :: bool
  max_gi :: int
  gi_to_node :: "int \<Rightarrow> int"
  names :: "int \<Rightarrow> string option"
  nodes :: "int \<Rightarrow> int"
  acc_file :: string

section \<open>Loading the tables\<close>

text \<open>
  Every loader runs \<^verbatim>\<open>while (!feof(fp)) { if (fgets(line, 1024, fp)) { ... } }\<close>: the
  body sees the file in the pieces that \<open>fgets\<close> delivers.
\<close>

function read_lines :: "string \<Rightarrow> nat \<Rightarrow> string list" where
  "read_lines f p =
     (case fst (fgets f p) of
        None \<Rightarrow> []
      | Some chunk \<Rightarrow> chunk # read_lines f (snd (fgets f p)))"
  by pat_completeness auto
termination
proof (relation "measure (\<lambda>(f, p). length f - p)")
  show "wf (measure (\<lambda>(f, p). length f - p))" by simp
next
  fix f :: string and p :: nat and chunk :: string
  assume a: "fst (fgets f p) = Some chunk"
  then have lt: "p < length f"
    by (auto simp: fgets_def split: if_splits)
  define n where "n = length (upto_newline (take 1023 (drop p f)))"
  from lt obtain c cs where "take 1023 (drop p f) = c # cs"
    by (cases "take 1023 (drop p f)") auto
  then have "0 < n"
    by (simp add: n_def)
  moreover have "snd (fgets f p) = p + n"
    using lt by (simp add: fgets_def Let_def n_def)
  ultimately have "length f - snd (fgets f p) < length f - p"
    using lt by arith
  then show "((f, snd (fgets f p)), (f, p)) \<in> measure (\<lambda>(f, p). length f - p)"
    by simp
qed

declare read_lines.simps [simp del]

subsection \<open>\<open>load_gi_to_node_list\<close> (acc2tax.c)\<close>

text \<open>
  The result of a loader that can call \<open>exit\<close>: \<open>Inl (status, messages)\<close> when it did,
  otherwise the table and the messages.
\<close>

definition load_gi_line ::
  "int \<Rightarrow> string \<Rightarrow> (int \<Rightarrow> int) \<times> diag list \<Rightarrow> int \<times> diag list + (int \<Rightarrow> int) \<times> diag list"
where
  "load_gi_line mx_gi line st =
     (case strtok line of
        None \<Rightarrow> Inr (fst st, snd st @ [BadLineInGIFile])
      | Some (gi_str, r1) \<Rightarrow>
          (case strtok r1 of
             None \<Rightarrow> Inr (fst st, snd st @ [BadLineInGIFile])
           | Some (node_id_str, r2) \<Rightarrow>
               (let gi = uint_of (atoi gi_str);
                    node_id = uint_of (atoi node_id_str)
                in if mx_gi \<le> gi then Inl (1, snd st @ [GIOutOfRange (int32_of gi)])
                   else Inr ((fst st)(gi := node_id), snd st))))"

fun load_gi_lines ::
  "int \<Rightarrow> string list \<Rightarrow> (int \<Rightarrow> int) \<times> diag list \<Rightarrow> int \<times> diag list + (int \<Rightarrow> int) \<times> diag list"
where
  "load_gi_lines mx_gi [] st = Inr st"
| "load_gi_lines mx_gi (chunk # rest) st =
     (case load_gi_line mx_gi (cstr chunk) st of
        Inl ex \<Rightarrow> Inl ex
      | Inr st' \<Rightarrow> load_gi_lines mx_gi rest st')"

text \<open>\<open>allocate_memory\<close> hands over a zeroed table of \<open>max_gi\<close> entries.\<close>

definition load_gi_to_node_list ::
  "int \<Rightarrow> string \<Rightarrow> int \<times> diag list + (int \<Rightarrow> int) \<times> diag list" where
  "load_gi_to_node_list mx_gi file = load_gi_lines mx_gi (read_lines file 0) (\<lambda>_. 0, [])"

subsection \<open>\<open>load_gi_to_node_list\<close> (gi2tax.c)\<close>

definition gi2tax_MAX_GI :: int where "gi2tax_MAX_GI = 500000000"

text \<open>
  \<open>gi\<close> and \<open>node_id\<close> are \<open>unsigned int\<close>, so the tests \<open>gi < 0\<close> and \<open>node_id < 0\<close> of the
  source compare two non-negative numbers.
\<close>

definition gi2tax_load_gi_line ::
  "string \<Rightarrow> (int \<Rightarrow> int) \<times> diag list \<Rightarrow> (int \<Rightarrow> int) \<times> diag list"
where
  "gi2tax_load_gi_line line st =
     (case strtok line of
        None \<Rightarrow> (fst st, snd st @ [BadLineInGIFile])
      | Some (gi_str, r1) \<Rightarrow>
          (case strtok r1 of
             None \<Rightarrow> (fst st, snd st @ [BadLineInGIFile])
           | Some (node_id_str, r2) \<Rightarrow>
               (let gi = uint_of (atoi gi_str);
                    node_id = uint_of (atoi node_id_str)
                in if gi < 0 \<or> gi2tax_MAX_GI \<le> gi
                   then (fst st, snd st @ [GIOutOfRange (int32_of gi)])
                   else if node_id < 0
                   then (fst st, snd st @ [NodeIDOutOfRange (int32_of node_id)])
                   else ((fst st)(gi := node_id), snd st))))"

fun gi2tax_load_gi_lines ::
  "string list \<Rightarrow> (int \<Rightarrow> int) \<times> diag list \<Rightarrow> (int \<Rightarrow> int) \<times> diag list"
where
  "gi2tax_load_gi_lines [] st = st"
| "gi2tax_load_gi_lines (chunk # rest) st =
     gi2tax_load_gi_lines rest (gi2tax_load_gi_line (cstr chunk) st)"

definition gi2tax_load_gi_to_node_list :: "string \<Rightarrow> (int \<Rightarrow> int) \<times> diag list" where
  "gi2tax_load_gi_to_node_list file = gi2tax_load_gi_lines (read_lines file 0) (\<lambda>_. 0, [])"

subsection \<open>\<open>get_name_fields\<close> and \<open>load_name_list\<close>\<close>

text \<open>
  The loop of \<open>get_name_fields\<close> starts a new row of \<open>fields\<close> at every tab. \<open>done\<close> holds
  the rows that are complete, \<open>cur\<close> the row being filled.
\<close>

fun get_name_fields_loop :: "string \<Rightarrow> string list \<Rightarrow> string \<Rightarrow> string list" where
  "get_name_fields_loop [] done cur = done @ [cur]"
| "get_name_fields_loop (c # s) done cur =
     (if c = TAB then get_name_fields_loop s (done @ [cur]) []
      else get_name_fields_loop s done (cur @ [c]))"

text \<open>
  \<open>fields\<close> has 16 rows of 128 bytes and no initialiser. The loop writes one row for every
  field of the line and leaves the other rows as they are; the source then copies rows 0,
  2, 4 and 6 out, whether the line had that many fields or not. \<open>rows\<close> gives the C string
  that each row holds on entry. The rows on return are the first part of the result: the
  array lies at the same place of the stack in every call from \<open>load_name_list\<close>, so the
  next call finds them. The rest of the result is \<open>(id, name, unique_name, class)\<close>, each
  copied into an array of 128 bytes.
\<close>

definition get_name_fields ::
  "string \<Rightarrow> (nat \<Rightarrow> string) \<Rightarrow>
   fault + (nat \<Rightarrow> string) \<times> string \<times> string \<times> string \<times> string" where
  "get_name_fields s rows =
     (let fs = get_name_fields_loop s [] []
      in if 16 < length fs then Inl FieldsOverflow
         else if filter (\<lambda>x. 127 < length x) fs \<noteq> [] then Inl FieldsOverflow
         else (let rows' = (\<lambda>j. if j < length fs then fs ! j else rows j)
               in if filter (\<lambda>x. 127 < length x) [rows' 0, rows' 2, rows' 4, rows' 6] \<noteq> []
                  then Inl FieldsOverflow
                  else Inr (rows', rows' 0, rows' 2, rows' 4, rows' 6)))"

text \<open>
  The body of the loop of \<open>load_name_list\<close> for one line that \<open>fgets\<close> has read. \<open>rows\<close> is
  what the call before left in \<open>fields\<close>, \<open>nms\<close> the \<open>names\<close> array.
\<close>

definition load_name_line ::
  "string \<Rightarrow> (nat \<Rightarrow> string) \<Rightarrow> (int \<Rightarrow> string option) \<Rightarrow>
   fault + (nat \<Rightarrow> string) \<times> (int \<Rightarrow> string option)" where
  "load_name_line line rows nms =
     (case get_name_fields line rows of
        Inl e \<Rightarrow> Inl e
      | Inr (rows', id_str, name, unique_name, class) \<Rightarrow>
          (let ident = uint_of (atoi id_str)
           in if strcmp class ''scientific name'' = 0
              then (if MAX_NAMES \<le> ident then Inl NamesOutOfRange
                    else Inr (rows', nms(ident := Some name)))
              else Inr (rows', nms)))"

fun load_name_lines ::
  "string list \<Rightarrow> (nat \<Rightarrow> string) \<Rightarrow> (int \<Rightarrow> string option) \<Rightarrow>
   fault + (nat \<Rightarrow> string) \<times> (int \<Rightarrow> string option)" where
  "load_name_lines [] rows nms = Inr (rows, nms)"
| "load_name_lines (chunk # rest) rows nms =
     (case load_name_line (cstr chunk) rows nms of
        Inl e \<Rightarrow> Inl e
      | Inr (rows', nms') \<Rightarrow> load_name_lines rest rows' nms')"

text \<open>\<open>rows0\<close> is what the stack holds in the place of \<open>fields\<close> at the first call.\<close>

definition load_name_list ::
  "string \<Rightarrow> (nat \<Rightarrow> string) \<Rightarrow> fault + (int \<Rightarrow> string option)" where
  "load_name_list file rows0 =
     (case load_name_lines (read_lines file 0) rows0 (\<lambda>_. None) of
        Inl e \<Rightarrow> Inl e
      | Inr (rows, nms) \<Rightarrow> Inr nms)"

section \<open>The lineage builder\<close>

subsection \<open>\<open>get_taxonomy_from_node\<close> (acc2tax.c)\<close>

text \<open>
  The loop \<^verbatim>\<open>while (current_node > 1) { node_list[n++] = current_node; current_node =
  nodes[current_node]; }\<close>. The source does not compare \<open>n\<close> with the 1024 entries of
  \<open>node_list\<close>, and the loop has no other exit than \<open>current_node \<le> 1\<close>. The model runs
  the loop as written and keeps every id it stores; on a parent table with a cycle it does
  not return (\<open>None\<close>). \<open>current_node\<close> is an \<open>int\<close>, the table holds \<open>unsigned int\<close>.
\<close>

partial_function (option) walk_nodes ::
  "(int \<Rightarrow> int) \<Rightarrow> int \<Rightarrow> int list \<Rightarrow> (fault + int list) option"
where
  "walk_nodes nds current_node node_list =
     (if 1 < current_node
      then (if NODES_SIZE \<le> current_node then Some (Inl NodesOutOfRange)
            else walk_nodes nds (int_of_uint (nds current_node)) (node_list @ [current_node]))
      else Some (Inr node_list))"

declare walk_nodes.simps [code]

text \<open>
  The loop \<^verbatim>\<open>for (i=n-1; i>=0; i--)\<close>; the second argument \<open>Suc i\<close> stands for the
  pass with index \<open>i\<close>, and 0 for the exit. The state is the string in \<open>taxonomy\<close> and the
  messages printed.
\<close>

fun render_names ::
  "(int \<Rightarrow> string option) \<Rightarrow> int list \<Rightarrow> nat \<Rightarrow> string \<times> diag list \<Rightarrow> fault + string \<times> diag list"
where
  "render_names nms node_list 0 st = Inr st"
| "render_names nms node_list (Suc i) st =
     (if node_list ! i < 0 \<or> MAX_NAMES \<le> node_list ! i then Inl NamesOutOfRange
      else case nms (node_list ! i) of
             Some name \<Rightarrow>
               render_names nms node_list i
                 (fst st @ name @ (if 0 < i then '','' else []), snd st)
           | None \<Rightarrow>
               render_names nms node_list i
                 (fst st @ ''Unknown'' @ (if 0 < i then '','' else []),
                  snd st @ [NoNameForNode (node_list ! i)]))"

text \<open>
  A walk that stored more than 1024 ids has written beyond \<open>node_list\<close>, and a lineage of
  more than 1023 bytes has been written beyond the caller's \<open>t[1024]\<close>.
\<close>

definition get_taxonomy_from_node ::
  "(int \<Rightarrow> int) \<Rightarrow> (int \<Rightarrow> string option) \<Rightarrow> int \<Rightarrow> (fault + string \<times> diag list) option"
where
  "get_taxonomy_from_node nds nms current_node =
     (case walk_nodes nds current_node [] of
        None \<Rightarrow> None
      | Some (Inl e) \<Rightarrow> Some (Inl e)
      | Some (Inr node_list) \<Rightarrow>
          if 1024 < length node_list then Some (Inl NodeListOverflow)
          else (case render_names nms node_list (length node_list) ([], []) of
                  Inl e \<Rightarrow> Some (Inl e)
                | Inr (taxonomy, msgs) \<Rightarrow>
                    if 1023 < length taxonomy then Some (Inl TaxonomyOverflow)
                    else Some (Inr (taxonomy, msgs))))"

subsection \<open>\<open>get_taxonomy_by_gi\<close> (acc2tax.c)\<close>

text \<open>
  The third argument is the string that the caller's buffer holds on entry: on the two
  error paths the function returns without writing to it. \<open>gi >= max_gi\<close> compares an
  \<open>int\<close> with an \<open>unsigned int\<close>.
\<close>

definition get_taxonomy_by_gi ::
  "globals \<Rightarrow> int \<Rightarrow> string \<Rightarrow> (fault + string \<times> diag list) option" where
  "get_taxonomy_by_gi g gi taxonomy =
     (if max_gi g \<le> uint_of gi \<or> gi < 1 then Some (Inr (taxonomy, [BadGI gi]))
      else (let current_node = int_of_uint (gi_to_node g gi)
            in if current_node = 0
               then Some (Inr (taxonomy, [GINodeInvalid gi current_node]))
               else get_taxonomy_from_node (nodes g) (names g) current_node))"

subsection \<open>\<open>get_taxonomy_by_gi\<close> (gi2tax.c)\<close>

text \<open>
  gi2tax.c has the walk and the rendering inside \<open>get_taxonomy_by_gi\<close>. The walk is the
  same loop (guarded by \<open>e == 0\<close>); the rendering prints the message for an id without a
  name and appends nothing. The function starts with \<open>taxonomy[0] = 0\<close>.
\<close>

fun gi2tax_render_names ::
  "(int \<Rightarrow> string option) \<Rightarrow> int list \<Rightarrow> nat \<Rightarrow> string \<times> diag list \<Rightarrow> fault + string \<times> diag list"
where
  "gi2tax_render_names nms node_list 0 st = Inr st"
| "gi2tax_render_names nms node_list (Suc i) st =
     (if node_list ! i < 0 \<or> MAX_NAMES \<le> node_list ! i then Inl NamesOutOfRange
      else case nms (node_list ! i) of
             Some name \<Rightarrow>
               gi2tax_render_names nms node_list i
                 (fst st @ name @ (if 0 < i then '','' else []), snd st)
           | None \<Rightarrow>
               gi2tax_render_names nms node_list i
                 (fst st, snd st @ [NoNameForNode (node_list ! i)]))"

definition gi2tax_get_taxonomy_by_gi ::
  "(int \<Rightarrow> int) \<Rightarrow> (int \<Rightarrow> int) \<Rightarrow> (int \<Rightarrow> string option) \<Rightarrow> int
     \<Rightarrow> (fault + string \<times> diag list) option"
where
  "gi2tax_get_taxonomy_by_gi gi_tab nds nms gi =
     (if gi2tax_MAX_GI \<le> gi \<or> gi < 1 then Some (Inr ([], [BadGI gi]))
      else (let current_node = int_of_uint (gi_tab gi)
            in if current_node = 0 then Some (Inr ([], [GINodeInvalid gi current_node]))
               else (case walk_nodes nds current_node [] of
                       None \<Rightarrow> None
                     | Some (Inl e) \<Rightarrow> Some (Inl e)
                     | Some (Inr node_list) \<Rightarrow>
                         if 1024 < length node_list then Some (Inl NodeListOverflow)
                         else (case gi2tax_render_names nms node_list (length node_list) ([], []) of
                                 Inl e \<Rightarrow> Some (Inl e)
                               | Inr (taxonomy, msgs) \<Rightarrow>
                                   if 1023 < length taxonomy then Some (Inl TaxonomyOverflow)
                                   else Some (Inr (taxonomy, msgs))))))"

section \<open>The batch driver (acc2tax.c)\<close>

text \<open>
  \<open>chomp\<close>: \<^verbatim>\<open>i = strlen(str) - 1; while ((i > 0) && (str[i] < ' ')) str[i--] = 0;\<close>.
  Plain \<open>char\<close> is signed, so the bytes from 128 on are below the space as well. The
  loop never removes the first byte.
\<close>

definition below_space :: "char \<Rightarrow> bool" where
  "below_space c = ((of_char c :: int) < 32 \<or> 128 \<le> (of_char c :: int))"

fun chomp_loop :: "string \<Rightarrow> nat \<Rightarrow> string" where
  "chomp_loop str 0 = str"
| "chomp_loop str (Suc i) =
     (if below_space (str ! Suc i) then chomp_loop (take (Suc i) str) i else str)"

definition chomp :: "string \<Rightarrow> string" where
  "chomp str = (if str = [] then [] else chomp_loop str (length str - 1))"

text \<open>The conversion \<open>%i\<close> of \<open>fprintf\<close>.\<close>

function decimal :: "nat \<Rightarrow> string" where
  "decimal n =
     (if n < 10 then [char_of (48 + n)]
      else decimal (n div 10) @ [char_of (48 + n mod 10)])"
  by pat_completeness auto
termination
  by (relation "measure (\<lambda>n. n)") auto

declare decimal.simps [simp del]

definition printf_i :: "int \<Rightarrow> string" where
  "printf_i x = (if x < 0 then ''-'' @ decimal (nat (- x)) else decimal (nat x))"

text \<open>
  The state of \<open>process_request_file\<close>: the strings in its arrays \<open>t\<close> and \<open>buffer\<close>, the
  read position of \<open>acc_fp\<close>, the bytes written to \<open>fp_out\<close>, the messages and \<open>count\<close>.
\<close>

record request_state =
  t_buf :: string
  line_buf :: string
  acc_pos :: nat
  out_bytes :: string
  diags :: "diag list"
  count :: int

text \<open>The body of the loop, for one piece of the request file.\<close>

definition process_request_line ::
  "globals \<Rightarrow> string \<Rightarrow> request_state \<Rightarrow> (fault + request_state) option" where
  "process_request_line g chunk st =
     (let line = chomp (cstr chunk);
          st1 = st\<lparr>count := count st + 1\<rparr>
      in if is_gi g
         then (let gi = atoi line
               in if gi < 1
                  then Some (Inr (st1\<lparr>diags := diags st1 @ [BadGIInRequestFile gi]\<rparr>))
                  else (case get_taxonomy_by_gi g gi (t_buf st1) of
                          None \<Rightarrow> None
                        | Some (Inl e) \<Rightarrow> Some (Inl e)
                        | Some (Inr (t, msgs)) \<Rightarrow>
                            Some (Inr (st1\<lparr>t_buf := t,
                                           diags := diags st1 @ msgs,
                                           out_bytes := out_bytes st1 @ printf_i gi @ [TAB] @ t @ [NL]\<rparr>))))
         else if is_accession g
         then (case find_accession (acc_file g) line (acc_pos st1) (line_buf st1) of
                 None \<Rightarrow> None
               | Some (Inl e) \<Rightarrow> Some (Inl e)
               | Some (Inr (found, fp', buffer', flds)) \<Rightarrow>
                   (let st2 = st1\<lparr>acc_pos := fp', line_buf := buffer'\<rparr>
                    in if found = 1
                       then (if f_taxid flds = 0
                             then Some (Inr (st2\<lparr>t_buf := ''Unknown'',
                                     out_bytes := out_bytes st2 @ line @ [TAB] @ ''Unknown'' @ [NL]\<rparr>))
                             else (case get_taxonomy_from_node (nodes g) (names g)
                                          (int32_of (f_taxid flds)) of
                                     None \<Rightarrow> None
                                   | Some (Inl e) \<Rightarrow> Some (Inl e)
                                   | Some (Inr (t, msgs)) \<Rightarrow>
                                       Some (Inr (st2\<lparr>t_buf := t,
                                              diags := diags st2 @ msgs,
                                              out_bytes := out_bytes st2 @ line @ [TAB] @ t @ [NL]\<rparr>))))
                       else Some (Inr (st2\<lparr>diags := diags st2 @ [CouldntFind line]\<rparr>))))
         else Some (Inr st1))"

fun process_request_loop ::
  "globals \<Rightarrow> string list \<Rightarrow> request_state \<Rightarrow> (fault + request_state) option" where
  "process_request_loop g [] st = Some (Inr st)"
| "process_request_loop g (chunk # rest) st =
     (case process_request_line g chunk st of
        None \<Rightarrow> None
      | Some (Inl e) \<Rightarrow> Some (Inl e)
      | Some (Inr st') \<Rightarrow> process_request_loop g rest st')"

text \<open>
  \<open>process_request_file\<close> on the request file \<open>input\<close>. \<open>t0\<close> and \<open>buffer0\<close> are the
  strings that the automatic arrays \<open>t\<close> and \<open>buffer\<close> hold when the function is entered;
  \<open>open_acc_file\<close> has left \<open>acc_fp\<close> at the end of the accession file.
\<close>

definition process_request_file ::
  "globals \<Rightarrow> string \<Rightarrow> string \<Rightarrow> string \<Rightarrow> (fault + request_state) option" where
  "process_request_file g input t0 buffer0 =
     process_request_loop g (read_lines input 0)
       \<lparr>t_buf = t0, line_buf = buffer0, acc_pos = length (acc_file g),
        out_bytes = [], diags = [], count = 0\<rparr>"

section \<open>Notions of the specification\<close>

text \<open>Byte-wise lexicographic order on strings is \<open>lexord byte_less\<close>.\<close>

definition byte_less :: "(char \<times> char) set" where
  "byte_less = {(a, b). (of_char a :: int) < of_char b}"

text \<open>The line of the file that begins at offset \<open>s\<close>, cut to the 1023 bytes a buffer
  of 1024 takes, as a C string.\<close>

definition line_from :: "string \<Rightarrow> nat \<Rightarrow> string" where
  "line_from f s = cstr (upto_newline (take 1023 (drop s f)))"

text \<open>\<open>p\<close> is the offset of the last newline at or before offset \<open>m\<close>.\<close>

definition last_newline_upto :: "string \<Rightarrow> nat \<Rightarrow> nat \<Rightarrow> bool" where
  "last_newline_upto f m p =
     (p \<le> m \<and> p < length f \<and> f ! p = NL \<and> NL \<notin> set (take (m - p) (drop (Suc p) f)))"

text \<open>
  Following the specification's words: records are newline-terminated, and the record
  containing offset \<open>m\<close> starts right after the last newline before \<open>m\<close>, or at offset 0
  when there is none.
\<close>

definition record_start :: "string \<Rightarrow> nat \<Rightarrow> nat" where
  "record_start f m = length (take m f) - length (takeWhile (\<lambda>c. c \<noteq> NL) (rev (take m f)))"

definition record_containing :: "string \<Rightarrow> nat \<Rightarrow> string" where
  "record_containing f m = upto_newline (drop (record_start f m) f)"

text \<open>A lineage is the comma-joined list of its names.\<close>

fun comma_join :: "string list \<Rightarrow> string" where
  "comma_join [] = []"
| "comma_join [x] = x"
| "comma_join (x # y # ys) = x @ '','' @ comma_join (y # ys)"

text \<open>The name a taxon is shown with.\<close>

definition name_or_unknown :: "(int \<Rightarrow> string option) \<Rightarrow> int \<Rightarrow> string" where
  "name_or_unknown nms i = (case nms i of Some name \<Rightarrow> name | None \<Rightarrow> ''Unknown'')"

text \<open>The parent of a taxon, as the walk reads it, and the first \<open>n\<close> taxa of the chain
  that starts at \<open>c\<close>.\<close>

definition parent_of :: "(int \<Rightarrow> int) \<Rightarrow> int \<Rightarrow> int" where
  "parent_of nds c = int_of_uint (nds c)"

definition chain :: "(int \<Rightarrow> int) \<Rightarrow> int \<Rightarrow> nat \<Rightarrow> int list" where
  "chain nds c n = map (\<lambda>j. (parent_of nds ^^ j) c) [0..<n]"

text \<open>
  The tab-separated fields of a line of the names file are
  \<open>get_name_fields_loop line [] []\<close>: the taxon id is the first of them, the name the
  third and the name class the seventh. \<open>name_entry\<close> is the entry that a line stands for:
  taxon id and name, when the line has a name class and it is exactly
  \<open>scientific name\<close>.
\<close>

definition name_entry :: "string \<Rightarrow> (int \<times> string) option" where
  "name_entry line =
     (let fs = get_name_fields_loop line [] []
      in if 6 < length fs
         then (if fs ! 6 = ''scientific name'' then Some (uint_of (atoi (fs ! 0)), fs ! 2)
               else None)
         else None)"

text \<open>
  A line that \<open>get_name_fields\<close> and \<open>load_name_list\<close> take apart inside their arrays:
  between 7 and 16 fields, none longer than 127 bytes, and when the line stands for an
  entry, a taxon id inside the \<open>names\<close> array.
\<close>

definition well_formed_name_line :: "string \<Rightarrow> bool" where
  "well_formed_name_line line =
     (let fs = get_name_fields_loop line [] []
      in 6 < length fs \<and> length fs \<le> 16 \<and> filter (\<lambda>x. 127 < length x) fs = []
         \<and> (case name_entry line of None \<Rightarrow> True | Some (i, name) \<Rightarrow> i < MAX_NAMES))"

text \<open>The value of the gi field of a line of the GI file that has both its fields.\<close>

definition gi_field :: "string \<Rightarrow> int option" where
  "gi_field line =
     (case strtok line of
        None \<Rightarrow> None
      | Some (gi_str, r1) \<Rightarrow>
          (case strtok r1 of
             None \<Rightarrow> None
           | Some (node_id_str, r2) \<Rightarrow> Some (uint_of (atoi gi_str))))"

text \<open>A line of the GI file that puts its gi at or beyond the bound.\<close>

definition gi_beyond :: "int \<Rightarrow> string \<Rightarrow> bool" where
  "gi_beyond bound line = (case gi_field line of None \<Rightarrow> False | Some gi \<Rightarrow> bound \<le> gi)"

section \<open>Fixtures\<close>

definition row :: "string \<Rightarrow> string \<Rightarrow> string \<Rightarrow> string \<Rightarrow> string" where
  "row a v t g = a @ [TAB] @ v @ [TAB] @ t @ [TAB] @ g @ [NL]"

text \<open>The sorted accession file of the specification's testable properties.\<close>

definition fixture_acc :: string where
  "fixture_acc =
     row ''A0001'' ''1'' ''9606'' ''11'' @ row ''A0005'' ''1'' ''562'' ''12'' @
     row ''A0009'' ''2'' ''0'' ''13'' @ row ''A0012'' ''1'' ''10090'' ''14''"

text \<open>A small taxonomy: 562 below 561 below 2 below the root; 561 has no name.\<close>

definition fixture_nodes :: "int \<Rightarrow> int" where
  "fixture_nodes = (\<lambda>_. 0)(2 := 1, 561 := 2, 562 := 561)"

definition fixture_names :: "int \<Rightarrow> string option" where
  "fixture_names = (\<lambda>_. None)(2 := Some ''Bacteria'', 562 := Some ''Escherichia coli'')"

definition fixture_gi :: "int \<Rightarrow> int" where
  "fixture_gi = (\<lambda>_. 0)(5 := 562, 9 := 561)"

definition fixture_globals :: "bool \<Rightarrow> globals" where
  "fixture_globals gi_mode =
     \<lparr>is_accession = \<not> gi_mode, is_gi = gi_mode, max_gi = 10, gi_to_node = fixture_gi,
      names = fixture_names, nodes = fixture_nodes, acc_file = fixture_acc\<rparr>"

text \<open>A GI file with a gi beyond the bounds of both programs in its second line.\<close>

definition fixture_gi_file :: string where
  "fixture_gi_file =
     ''5'' @ [TAB] @ ''100'' @ [NL] @ ''2000000000'' @ [TAB] @ ''200'' @ [NL] @
     ''6'' @ [TAB] @ ''7'' @ [NL]"

text \<open>A names file in the layout of \<open>names.dmp\<close>, with two scientific names for taxon
  562 and a synonym between them.\<close>

definition names_row :: "string \<Rightarrow> string \<Rightarrow> string \<Rightarrow> string" where
  "names_row ident name class =
     ident @ [TAB] @ ''|'' @ [TAB] @ name @ [TAB] @ ''|'' @ [TAB] @ [TAB] @ ''|'' @ [TAB] @
     class @ [TAB] @ ''|'' @ [NL]"

definition fixture_names_file :: string where
  "fixture_names_file =
     names_row ''562'' ''Bacillus coli'' ''scientific name'' @
     names_row ''562'' ''E. coli'' ''synonym'' @
     names_row ''562'' ''Escherichia coli'' ''scientific name'' @
     names_row ''2'' ''Bacteria'' ''scientific name''"

text \<open>A line of a names file that ends after the name, and a names file with such a
  line behind a complete one.\<close>

definition short_name_line :: string where
  "short_name_line = ''7'' @ [TAB] @ ''|'' @ [TAB] @ ''Foo'' @ [NL]"

definition short_names_file :: string where
  "short_names_file =
     names_row ''562'' ''Escherichia coli'' ''scientific name'' @ short_name_line"

text \<open>A names table in which every taxon has a name of 127 bytes, the longest that
  \<open>load_name_list\<close> stores.\<close>

definition long_names :: "int \<Rightarrow> string option" where
  "long_names = (\<lambda>_. Some (replicate 127 CHR ''a''))"

text \<open>A parent table with a cycle, and one where every taxon hangs below its
  predecessor.\<close>

definition cyclic_nodes :: "int \<Rightarrow> int" where
  "cyclic_nodes = (\<lambda>_. 0)(2 := 3, 3 := 2)"

definition deep_nodes :: "int \<Rightarrow> int" where
  "deep_nodes = (\<lambda>c. c - 1)"

section \<open>Facts about the C library functions\<close>

lemma c_div_2: "0 \<le> a \<Longrightarrow> c_div a 2 = a div 2"
  by (simp add: c_div_def)

lemma int32_of_id: "- 2147483648 \<le> x \<Longrightarrow> x < 2147483648 \<Longrightarrow> int32_of x = x"
  by (simp add: int32_of_def)


lemma of_char_int_nonneg: "(0::int) \<le> of_char c"
proof -
  have "(of_char c :: int) = of_nat (of_char c)" by (simp only: of_nat_of_char)
  then show ?thesis by simp
qed

lemma of_char_int_zero: "((of_char c :: int) = 0) = (c = NUL)"
  using of_char_eq_iff [of c NUL, where ?'a = int] by simp

lemma of_char_int_not_neg [simp]: "\<not> (of_char c :: int) < 0"
  using of_char_int_nonneg [of c] by linarith

lemma of_char_int_pos: "c \<noteq> NUL \<Longrightarrow> (0::int) < of_char c"
  using of_char_int_nonneg [of c] of_char_int_zero [of c] by linarith

lemma strcmp_zero:
  "NUL \<notin> set a \<Longrightarrow> NUL \<notin> set b \<Longrightarrow> (strcmp a b = 0) = (a = b)"
  by (induction a b rule: strcmp.induct) (auto simp: of_char_int_zero of_char_eq_iff)

lemma strcmp_pos:
  "NUL \<notin> set a \<Longrightarrow> NUL \<notin> set b \<Longrightarrow> (0 < strcmp a b) = ((b, a) \<in> lexord byte_less)"
  by (induction a b rule: strcmp.induct)
     (auto simp: byte_less_def of_char_int_pos of_char_eq_iff)

lemma strcmp_neg:
  "NUL \<notin> set a \<Longrightarrow> NUL \<notin> set b \<Longrightarrow> (strcmp a b < 0) = ((a, b) \<in> lexord byte_less)"
  by (induction a b rule: strcmp.induct)
     (auto simp: byte_less_def of_char_int_pos of_char_eq_iff)

lemma lexord_byte_less_total:
  "a = b \<or> (a, b) \<in> lexord byte_less \<or> (b, a) \<in> lexord byte_less"
proof -
  have "(x, y) \<in> byte_less \<or> x = y \<or> (y, x) \<in> byte_less" for x y
    using of_char_eq_iff [of x y, where ?'a = int] unfolding byte_less_def by auto
  then have "total byte_less" unfolding total_on_def by blast
  then have "total (lexord byte_less)" by (rule total_lexord)
  then show ?thesis by (auto simp: total_on_def)
qed

lemma cstr_no_NUL: "NUL \<notin> set (cstr bs)"
  unfolding cstr_def by (induction bs) auto

lemma strtok_subset: "strtok s = Some (tok, r) \<Longrightarrow> set tok \<subseteq> set s"
  unfolding strtok_def Let_def
  by (auto split: if_splits dest!: set_takeWhileD set_dropWhileD)

lemma split_fields_accession:
  "f_accession (split_fields s) = Some a \<Longrightarrow> set a \<subseteq> set s"
  unfolding split_fields_def
  by (auto split: option.splits prod.splits dest: strtok_subset)

section \<open>Facts about the accession resolver\<close>

lemma nat_int_Suc: "nat (1 + int m) = Suc m"
  by simp

text \<open>The scan stops behind the first newline it meets on its way down.\<close>

lemma scan_finds_newline:
  "p \<le> m \<Longrightarrow> p < length f \<Longrightarrow> f ! p = NL
   \<Longrightarrow> (\<forall>k. p < k \<and> k \<le> m \<and> k < length f \<longrightarrow> f ! k \<noteq> NL)
   \<Longrightarrow> get_closest_scan f (int m) fp = Suc p"
proof (induction "m - p" arbitrary: m fp)
  case 0
  then have "m = p" by simp
  with 0 show ?case by (subst get_closest_scan.simps) (simp add: fgetc_def)
next
  case (Suc d)
  then obtain m' where m: "m = Suc m'" "p \<le> m'" "d = m' - p" by (cases m) auto
  have nn: "fst (fgetc f m) \<noteq> Some NL"
    using Suc.prems m by (auto simp: fgetc_def)
  have "get_closest_scan f (int m) fp = get_closest_scan f (int m') (snd (fgetc f m))"
    using nn m by (subst get_closest_scan.simps) (simp add: nat_int_Suc)
  also have "\<dots> = Suc p"
    using Suc.hyps(1) [OF m(3) m(2)] Suc.prems m by simp
  finally show ?case .
qed

text \<open>
  When it meets none, the last byte it has read is byte 0, and the stream is left at
  offset 1 (at offset 0 when the file is empty).
\<close>

lemma scan_reaches_start:
  "(\<forall>k. k \<le> m \<and> k < length f \<longrightarrow> f ! k \<noteq> NL)
   \<Longrightarrow> get_closest_scan f (int m) fp = (if f = [] then 0 else 1)"
proof (induction m arbitrary: fp)
  case 0
  then show ?case
    by (subst get_closest_scan.simps, subst get_closest_scan.simps) (auto simp: fgetc_def)
next
  case (Suc m)
  have nn: "fst (fgetc f (Suc m)) \<noteq> Some NL"
    using Suc.prems by (auto simp: fgetc_def)
  have "get_closest_scan f (int (Suc m)) fp = get_closest_scan f (int m) (snd (fgetc f (Suc m)))"
    using nn by (subst get_closest_scan.simps) (simp add: nat_int_Suc)
  also have "\<dots> = (if f = [] then 0 else 1)"
    using Suc.IH Suc.prems by simp
  finally show ?case .
qed

lemma last_newline_uptoD:
  assumes "last_newline_upto f m p"
  shows "p \<le> m" "p < length f" "f ! p = NL"
    "\<forall>k. p < k \<and> k \<le> m \<and> k < length f \<longrightarrow> f ! k \<noteq> NL"
proof -
  from assms show "p \<le> m" "p < length f" "f ! p = NL"
    by (simp_all add: last_newline_upto_def)
  from assms have n: "NL \<notin> set (take (m - p) (drop (Suc p) f))"
    by (simp add: last_newline_upto_def)
  show "\<forall>k. p < k \<and> k \<le> m \<and> k < length f \<longrightarrow> f ! k \<noteq> NL"
  proof (intro allI impI)
    fix k assume k: "p < k \<and> k \<le> m \<and> k < length f"
    define j where "j = k - Suc p"
    have j: "j < m - p" "Suc p + j = k" "j < length f - Suc p"
      using k by (auto simp: j_def)
    then have "take (m - p) (drop (Suc p) f) ! j = f ! k"
      by simp
    moreover have "j < length (take (m - p) (drop (Suc p) f))"
      using j by simp
    ultimately have "f ! k \<in> set (take (m - p) (drop (Suc p) f))"
      by (metis nth_mem)
    with n show "f ! k \<noteq> NL" by auto
  qed
qed

lemma get_closest_record_after_newline:
  assumes "last_newline_upto f m p" and "Suc p < length f"
  shows "get_closest_record f (int m) fp line =
           (Suc p + length (upto_newline (take 1023 (drop (Suc p) f))), line_from f (Suc p))"
proof -
  have "get_closest_scan f (int m) fp = Suc p"
    using last_newline_uptoD [OF assms(1)] by (rule scan_finds_newline)
  then show ?thesis
    using assms(2) by (simp add: get_closest_record_def fgets_def line_from_def Let_def)
qed




section \<open>The claims about the accession resolver\<close>

text \<open>
  Claim C1. \<^emph>\<open>Each pass of \<open>find_accession\<close> computes the midpoint of the range, reads
  the record containing it, and compares the query byte-wise with that record's accession:
  equal, it returns the record as found; the record greater, it goes on with
  \<open>[low, mid)\<close>; the record lesser, with \<open>[mid, high)\<close>; and it returns not-found as soon
  as the width of the range is below 20 bytes.\<close>

  As stated the claim fails where the midpoint falls on the newline that ends a record:
  the scan takes that newline for the one it looks for, and the pass compares the query
  with the record \<^emph>\<open>after\<close> the one containing the midpoint. In the fixture the second pass
  of the search for \<open>A0001\<close> has its midpoint, 15, on the last byte of the record of
  \<open>A0001\<close>; it reads the record of \<open>A0005\<close> and the search ends without a match.
\<close>

theorem find_accession_reads_next_record:
  "f_accession (split_fields (cstr (record_containing fixture_acc 15))) = Some ''A0001''
   \<and> find_accession_body fixture_acc ''A0001'' 0 61 61 [] = Continue 0 30 44 ''A0009''
   \<and> (15::int) = 0 + c_div (30 - 0) 2
   \<and> find_accession_body fixture_acc ''A0001'' 0 30 44 ''A0009'' =
       Break 0 31 ''A0005''
         \<lparr>f_accession = Some ''A0005'', f_version = Some ''1'', f_taxid = 562, f_gi = 12\<rparr>
   \<and> find_accession fixture_acc ''A0001'' 61 [] =
       Some (Inr (0, 31, ''A0005'',
         \<lparr>f_accession = Some ''A0005'', f_version = Some ''1'', f_taxid = 562, f_gi = 12\<rparr>))"
  by code_simp

text \<open>
  What holds: when there is a newline at or before the midpoint and the file goes on
  behind it, the line that is compared is the one that begins right behind the last such
  newline. For that line the pass does what the claim says, while the range is narrower
  than \<open>2 ^ 31\<close> bytes (\<open>abs\<close> sees the width as an \<open>int\<close>). \<open>acc\<close> is the first field of
  the line, \<open>lexord byte_less\<close> the byte-wise order, and the query is a C string. Nothing
  is said about a midpoint with no newline at or before it.
\<close>

theorem find_accession_iteration:
  assumes range: "0 \<le> mn" "mn \<le> mx" "mx - mn < 2147483648"
    and mid: "int m = mn + (mx - mn) div 2"
    and nl: "last_newline_upto f m p"
    and more: "Suc p < length f"
    and acc: "f_accession (split_fields (line_from f (Suc p))) = Some acc"
    and q: "NUL \<notin> set q"
    and fp': "fp' = Suc p + length (upto_newline (take 1023 (drop (Suc p) f)))"
    and line': "line' = after_strtok (line_from f (Suc p))"
    and flds: "flds = split_fields (line_from f (Suc p))"
  shows "(acc = q \<or> (q, acc) \<in> lexord byte_less \<or> (acc, q) \<in> lexord byte_less)
    \<and> (acc = q \<longrightarrow> find_accession_body f q mn mx fp line = Break 1 fp' line' flds)
    \<and> ((q, acc) \<in> lexord byte_less \<longrightarrow>
          find_accession_body f q mn mx fp line =
            (if int m - mn < 20 then Break 0 fp' line' flds else Continue mn (int m) fp' line'))
    \<and> ((acc, q) \<in> lexord byte_less \<longrightarrow>
          find_accession_body f q mn mx fp line =
            (if mx - int m < 20 then Break 0 fp' line' flds else Continue (int m) mx fp' line'))"
proof -
  have cp: "mn + c_div (mx - mn) 2 = int m"
    using range mid by (simp add: c_div_2)
  have rd: "get_closest_record f (int m) fp line = (fp', line_from f (Suc p))"
    unfolding fp' using nl more by (rule get_closest_record_after_newline)
  have "set acc \<subseteq> set (line_from f (Suc p))"
    using acc by (rule split_fields_accession)
  then have an: "NUL \<notin> set acc"
    using cstr_no_NUL [of "upto_newline (take 1023 (drop (Suc p) f))"]
    by (auto simp: line_from_def)
  have w0: "int32_of (mx - mn) = mx - mn"
    using range by (intro int32_of_id) auto
  have w1: "int32_of (int m - mn) = int m - mn"
    using range mid by (intro int32_of_id) auto
  have w2: "int32_of (mx - int m) = mx - int m"
    using range mid by (intro int32_of_id) auto
  have ge: "0 \<le> int m - mn" "0 \<le> mx - int m" using range mid by auto
  have body: "find_accession_body f q mn mx fp line =
     (let similarity = strcmp acc q;
          found = (if similarity = 0 then 1 else 0);
          mx' = (if similarity \<noteq> 0 \<and> 0 < similarity then int m else mx);
          mn' = (if similarity \<noteq> 0 \<and> \<not> 0 < similarity \<and> similarity < 0 then int m else mn);
          d = int32_of (mx' - mn')
      in if d = INT_MIN then Fault AbsOverflow
         else if \<bar>d\<bar> < 20 then Break found fp' line' flds
         else if found = 0 then Continue mn' mx' fp' line'
         else Break found fp' line' flds)"
    unfolding find_accession_body_def cp rd Let_def line' flds
    by (simp add: acc)
  have eq: "acc = q \<longrightarrow> find_accession_body f q mn mx fp line = Break 1 fp' line' flds"
    using strcmp_zero [OF an q] range
    by (auto simp: body Let_def w0 INT_MIN_def)
  have gt: "(q, acc) \<in> lexord byte_less \<longrightarrow>
          find_accession_body f q mn mx fp line =
            (if int m - mn < 20 then Break 0 fp' line' flds else Continue mn (int m) fp' line')"
  proof
    assume a: "(q, acc) \<in> lexord byte_less"
    then have "0 < strcmp acc q" using strcmp_pos [OF an q] by simp
    then show "find_accession_body f q mn mx fp line =
            (if int m - mn < 20 then Break 0 fp' line' flds else Continue mn (int m) fp' line')"
      using ge by (simp add: body Let_def w1 INT_MIN_def)
  qed
  have lt: "(acc, q) \<in> lexord byte_less \<longrightarrow>
          find_accession_body f q mn mx fp line =
            (if mx - int m < 20 then Break 0 fp' line' flds else Continue (int m) mx fp' line')"
  proof
    assume a: "(acc, q) \<in> lexord byte_less"
    then have "strcmp acc q < 0" using strcmp_neg [OF an q] by simp
    then show "find_accession_body f q mn mx fp line =
            (if mx - int m < 20 then Break 0 fp' line' flds else Continue (int m) mx fp' line')"
      using ge by (simp add: body Let_def w2 INT_MIN_def)
  qed
  from lexord_byte_less_total [of acc q] eq gt lt show ?thesis by blast
qed

theorem find_accession_iteration_witness:
  "find_accession_body fixture_acc ''A0005'' 0 30 44 ''A0009'' =
     Break 1 31 ''A0005''
       \<lparr>f_accession = Some ''A0005'', f_version = Some ''1'', f_taxid = 562, f_gi = 12\<rparr>
   \<and> find_accession_body fixture_acc ''A0005'' 0 61 61 [] = Continue 0 30 44 ''A0009''
   \<and> find_accession_body fixture_acc ''A0012'' 0 61 61 [] = Continue 30 61 44 ''A0009''
   \<and> find_accession_body fixture_acc ''A0003'' 0 30 44 ''A0009'' =
     Break 0 31 ''A0005''
       \<lparr>f_accession = Some ''A0005'', f_version = Some ''1'', f_taxid = 562, f_gi = 12\<rparr>"
proof -
  have q: "NUL \<notin> set ''A0005''" "NUL \<notin> set ''A0012''" "NUL \<notin> set ''A0003''" by simp_all
  have n1: "last_newline_upto fixture_acc 15 15" by code_simp
  have m1: "Suc 15 < length fixture_acc" by code_simp
  have a1: "f_accession (split_fields (line_from fixture_acc (Suc 15))) = Some ''A0005''"
    by code_simp
  have p1: "(31::nat) = Suc 15 + length (upto_newline (take 1023 (drop (Suc 15) fixture_acc)))"
    by code_simp
  have l1: "''A0005'' = after_strtok (line_from fixture_acc (Suc 15))" by code_simp
  have f1: "\<lparr>f_accession = Some ''A0005'', f_version = Some ''1'', f_taxid = 562, f_gi = 12\<rparr> =
       split_fields (line_from fixture_acc (Suc 15))" by code_simp
  have r1: "(0::int) \<le> 0" "(0::int) \<le> 30" "(30::int) - 0 < 2147483648"
    "int 15 = 0 + (30 - 0) div 2" by simp_all
  have n2: "last_newline_upto fixture_acc 30 30" by code_simp
  have m2: "Suc 30 < length fixture_acc" by code_simp
  have a2: "f_accession (split_fields (line_from fixture_acc (Suc 30))) = Some ''A0009''"
    by code_simp
  have p2: "(44::nat) = Suc 30 + length (upto_newline (take 1023 (drop (Suc 30) fixture_acc)))"
    by code_simp
  have l2: "''A0009'' = after_strtok (line_from fixture_acc (Suc 30))" by code_simp
  have g2: "(''A0005'', ''A0009'') \<in> lexord byte_less" by (simp add: byte_less_def)
  have g3: "(''A0009'', ''A0012'') \<in> lexord byte_less" by (simp add: byte_less_def)
  have g4: "(''A0003'', ''A0005'') \<in> lexord byte_less" by (simp add: byte_less_def)
  have r2: "(0::int) \<le> 0" "(0::int) \<le> 61" "(61::int) - 0 < 2147483648"
    "int 30 = 0 + (61 - 0) div 2" by simp_all
  have a: "find_accession_body fixture_acc ''A0005'' 0 30 44 ''A0009'' =
     Break 1 31 ''A0005''
       \<lparr>f_accession = Some ''A0005'', f_version = Some ''1'', f_taxid = 562, f_gi = 12\<rparr>"
    using find_accession_iteration [OF r1 n1 m1 a1 q(1) p1 l1 f1, of 44 "''A0009''"] by blast
  have "find_accession_body fixture_acc ''A0005'' 0 61 61 [] =
          (if int 30 - 0 < 20
           then Break 0 44 ''A0009'' (split_fields (line_from fixture_acc (Suc 30)))
           else Continue 0 (int 30) 44 ''A0009'')"
    using find_accession_iteration [OF r2 n2 m2 a2 q(1) p2 l2 refl, of 61 "[]"] g2 by blast
  then have b: "find_accession_body fixture_acc ''A0005'' 0 61 61 [] = Continue 0 30 44 ''A0009''"
    by simp
  have "find_accession_body fixture_acc ''A0012'' 0 61 61 [] =
          (if 61 - int 30 < 20
           then Break 0 44 ''A0009'' (split_fields (line_from fixture_acc (Suc 30)))
           else Continue (int 30) 61 44 ''A0009'')"
    using find_accession_iteration [OF r2 n2 m2 a2 q(2) p2 l2 refl, of 61 "[]"] g3 by blast
  then have c: "find_accession_body fixture_acc ''A0012'' 0 61 61 [] = Continue 30 61 44 ''A0009''"
    by simp
  have "find_accession_body fixture_acc ''A0003'' 0 30 44 ''A0009'' =
          (if int 15 - 0 < 20
           then Break 0 31 ''A0005''
             \<lparr>f_accession = Some ''A0005'', f_version = Some ''1'', f_taxid = 562, f_gi = 12\<rparr>
           else Continue 0 (int 15) 31 ''A0005'')"
    using find_accession_iteration [OF r1 n1 m1 a1 q(3) p1 l1 f1, of 44 "''A0009''"] g4 by blast
  then have d: "find_accession_body fixture_acc ''A0003'' 0 30 44 ''A0009'' =
     Break 0 31 ''A0005''
       \<lparr>f_accession = Some ''A0005'', f_version = Some ''1'', f_taxid = 562, f_gi = 12\<rparr>"
    by simp
  from a b c d show ?thesis by blast
qed

text \<open>
  Claim C3. \<^emph>\<open>For every byte offset in the file, the scan goes backward until it finds a
  newline or reaches the start of the file, and the line then read begins right after
  that newline; when the scan reaches the start of the file, the line read is the
  complete first record, starting at byte 0.\<close>

  The code does not do the second part. The last pass of the scan reads byte 0 with
  \<open>fgetc\<close>, which leaves the stream at offset 1, and \<open>fgets\<close> reads from there
  (\<open>scan_reaches_start\<close>). At offset 2 of the fixture, inside the first record, the line
  handed back is the first record without its first byte.
\<close>

theorem get_closest_record_drops_first_byte:
  "record_containing fixture_acc 2 = row ''A0001'' ''1'' ''9606'' ''11''
   \<and> get_closest_record fixture_acc 2 (length fixture_acc) [] =
       (16, ''0001'' @ [TAB] @ ''1'' @ [TAB] @ ''9606'' @ [TAB] @ ''11'' @ [NL])"
  by code_simp




section \<open>Facts about the lineage builder\<close>

lemma chain_0 [simp]: "chain nds c 0 = []"
  by (simp add: chain_def)

lemma chain_Suc: "chain nds c (Suc n) = c # chain nds (parent_of nds c) n"
proof -
  have "[0..<Suc n] = 0 # map Suc [0..<n]"
    by (simp add: upt_conv_Cons map_Suc_upt del: upt_Suc)
  then show ?thesis
    by (simp add: chain_def funpow_swap1 comp_def del: upt_Suc)
qed

lemma length_chain [simp]: "length (chain nds c n) = n"
  by (simp add: chain_def)

lemma walk_nodes_chain:
  "(\<forall>j<n. 1 < (parent_of nds ^^ j) c \<and> (parent_of nds ^^ j) c < NODES_SIZE)
   \<Longrightarrow> (parent_of nds ^^ n) c \<le> 1
   \<Longrightarrow> walk_nodes nds c acc = Some (Inr (acc @ chain nds c n))"
proof (induction n arbitrary: c acc)
  case 0
  then show ?case by (subst walk_nodes.simps) simp
next
  case (Suc n)
  from Suc.prems(1) have c: "1 < c" "c < NODES_SIZE" by force+
  have "\<forall>j<n. 1 < (parent_of nds ^^ j) (parent_of nds c)
           \<and> (parent_of nds ^^ j) (parent_of nds c) < NODES_SIZE"
  proof (intro allI impI)
    fix j assume "j < n"
    then have "Suc j < Suc n" by simp
    with Suc.prems(1) have "1 < (parent_of nds ^^ Suc j) c \<and> (parent_of nds ^^ Suc j) c < NODES_SIZE"
      by blast
    then show "1 < (parent_of nds ^^ j) (parent_of nds c)
           \<and> (parent_of nds ^^ j) (parent_of nds c) < NODES_SIZE"
      by (simp add: funpow_swap1)
  qed
  moreover have "(parent_of nds ^^ n) (parent_of nds c) \<le> 1"
    using Suc.prems(2) by (simp add: funpow_swap1)
  ultimately have "walk_nodes nds (parent_of nds c) (acc @ [c])
      = Some (Inr ((acc @ [c]) @ chain nds (parent_of nds c) n))"
    by (rule Suc.IH)
  then show ?case
    using c by (subst walk_nodes.simps) (simp add: chain_Suc parent_of_def)
qed

lemma walk_nodes_Inr:
  assumes "walk_nodes nds c acc = Some (Inr nl)"
  shows "\<exists>n. nl = acc @ chain nds c n
         \<and> (\<forall>j<n. 1 < (parent_of nds ^^ j) c \<and> (parent_of nds ^^ j) c < NODES_SIZE)
         \<and> (parent_of nds ^^ n) c \<le> 1"
proof -
  let ?P = "\<lambda>nds c acc (r :: fault + int list). \<forall>nl. r = Inr nl \<longrightarrow>
      (\<exists>n. nl = acc @ chain nds c n
         \<and> (\<forall>j<n. 1 < (parent_of nds ^^ j) c \<and> (parent_of nds ^^ j) c < NODES_SIZE)
         \<and> (parent_of nds ^^ n) c \<le> 1)"
  have "?P nds c acc (Inr nl)"
  proof (rule walk_nodes.raw_induct [where P = ?P])
    show "walk_nodes nds c acc = Some (Inr nl)" by fact
  next
    fix walk :: "(int \<Rightarrow> int) \<Rightarrow> int \<Rightarrow> int list \<Rightarrow> (fault + int list) option"
      and nds c acc r
    assume ih: "\<And>nds c acc r. walk nds c acc = Some r \<Longrightarrow> ?P nds c acc r"
      and body: "(if 1 < c
            then (if NODES_SIZE \<le> c then Some (Inl NodesOutOfRange)
                  else walk nds (int_of_uint (nds c)) (acc @ [c]))
            else Some (Inr acc)) = Some r"
    show "?P nds c acc r"
    proof (intro allI impI)
      fix nl assume r: "r = Inr nl"
      show "\<exists>n. nl = acc @ chain nds c n
         \<and> (\<forall>j<n. 1 < (parent_of nds ^^ j) c \<and> (parent_of nds ^^ j) c < NODES_SIZE)
         \<and> (parent_of nds ^^ n) c \<le> 1"
      proof (cases "1 < c")
        case False
        with body r have "nl = acc" by simp
        with False show ?thesis by (intro exI [of _ 0]) simp
      next
        case True
        with body r have c: "c < NODES_SIZE"
          and w: "walk nds (int_of_uint (nds c)) (acc @ [c]) = Some r"
          by (auto split: if_splits)
        have p: "int_of_uint (nds c) = parent_of nds c" by (simp add: parent_of_def)
        from ih [OF w] r obtain n where n: "nl = (acc @ [c]) @ chain nds (parent_of nds c) n"
          "\<forall>j<n. 1 < (parent_of nds ^^ j) (parent_of nds c)
                \<and> (parent_of nds ^^ j) (parent_of nds c) < NODES_SIZE"
          "(parent_of nds ^^ n) (parent_of nds c) \<le> 1"
          unfolding p by blast
        have "\<forall>j<Suc n. 1 < (parent_of nds ^^ j) c \<and> (parent_of nds ^^ j) c < NODES_SIZE"
        proof (intro allI impI)
          fix j assume j: "j < Suc n"
          show "1 < (parent_of nds ^^ j) c \<and> (parent_of nds ^^ j) c < NODES_SIZE"
          proof (cases j)
            case 0
            with True c show ?thesis by simp
          next
            case (Suc j')
            with j have "j' < n" by simp
            with n(2) have "1 < (parent_of nds ^^ j') (parent_of nds c)
                \<and> (parent_of nds ^^ j') (parent_of nds c) < NODES_SIZE" by blast
            then show ?thesis unfolding Suc by (simp add: funpow_swap1)
          qed
        qed
        moreover have "(parent_of nds ^^ Suc n) c \<le> 1"
          using n(3) by (simp add: funpow_swap1)
        moreover have "nl = acc @ chain nds c (Suc n)"
          using n(1) by (simp add: chain_Suc)
        ultimately show ?thesis by blast
      qed
    qed
  qed
  then show ?thesis by blast
qed

lemma walk_nodes_returns:
  "(parent_of nds ^^ k) c \<le> 1 \<Longrightarrow> \<exists>r. walk_nodes nds c acc = Some r"
proof (induction k arbitrary: c acc)
  case 0
  then show ?case by (subst walk_nodes.simps) simp
next
  case (Suc k)
  from Suc.prems have "(parent_of nds ^^ k) (parent_of nds c) \<le> 1"
    by (simp add: funpow_swap1)
  from Suc.IH [OF this, of "acc @ [c]"]
  obtain r where "walk_nodes nds (parent_of nds c) (acc @ [c]) = Some r" by blast
  then show ?case
    by (subst walk_nodes.simps) (simp add: parent_of_def)
qed

lemma walk_nodes_cycle:
  assumes "walk_nodes nds c acc = Some r" and "nds 2 = 3" and "nds 3 = 2"
  shows "c \<noteq> 2 \<and> c \<noteq> 3"
proof -
  let ?P = "\<lambda>(nds :: int \<Rightarrow> int) (c :: int) (acc :: int list) (r :: fault + int list).
      nds 2 = 3 \<and> nds 3 = 2 \<longrightarrow> c \<noteq> 2 \<and> c \<noteq> 3"
  have "?P nds c acc r"
  proof (rule walk_nodes.raw_induct [where P = ?P])
    show "walk_nodes nds c acc = Some r" by fact
  next
    fix walk :: "(int \<Rightarrow> int) \<Rightarrow> int \<Rightarrow> int list \<Rightarrow> (fault + int list) option"
      and nds c acc r
    assume ih: "\<And>nds c acc r. walk nds c acc = Some r \<Longrightarrow> ?P nds c acc r"
      and body: "(if 1 < c
            then (if NODES_SIZE \<le> c then Some (Inl NodesOutOfRange)
                  else walk nds (int_of_uint (nds c)) (acc @ [c]))
            else Some (Inr acc)) = Some r"
    show "?P nds c acc r"
    proof (intro impI, rule ccontr)
      assume cyc: "nds 2 = 3 \<and> nds 3 = 2" and "\<not> (c \<noteq> 2 \<and> c \<noteq> 3)"
      then have c: "c = 2 \<or> c = 3" by blast
      then have "1 < c" "\<not> NODES_SIZE \<le> c" by (auto simp: NODES_SIZE_def MAX_NAMES_def)
      with body have w: "walk nds (int_of_uint (nds c)) (acc @ [c]) = Some r" by simp
      have "int_of_uint 2 = 2" "int_of_uint 3 = 3"
        by (simp_all add: int_of_uint_def int32_of_def)
      with c cyc have "int_of_uint (nds c) = 2 \<or> int_of_uint (nds c) = 3"
        by auto
      with ih [OF w] cyc show False by blast
    qed
  qed
  with assms(2,3) show ?thesis by blast
qed

lemma comma_join_Cons:
  "comma_join (x # xs) = x @ (if xs = [] then [] else '','' @ comma_join xs)"
  by (cases xs) simp_all

lemma render_names_closed:
  "k \<le> length nl \<Longrightarrow> (\<forall>i<k. 0 \<le> nl ! i \<and> nl ! i < MAX_NAMES)
   \<Longrightarrow> render_names nms nl k st =
         Inr (fst st @ comma_join (map (name_or_unknown nms) (rev (take k nl))),
              snd st @ map NoNameForNode (filter (\<lambda>i. nms i = None) (rev (take k nl))))"
proof (induction k arbitrary: st)
  case 0
  then show ?case by simp
next
  case (Suc k)
  then have k: "k < length nl" "\<not> (nl ! k < 0 \<or> MAX_NAMES \<le> nl ! k)" by auto
  have t: "rev (take (Suc k) nl) = nl ! k # rev (take k nl)"
    using k(1) by (simp add: take_Suc_conv_app_nth)
  have e: "(rev (take k nl) = []) = (k = 0)"
    using k(1) by auto
  have ih: "render_names nms nl k st' =
         Inr (fst st' @ comma_join (map (name_or_unknown nms) (rev (take k nl))),
              snd st' @ map NoNameForNode (filter (\<lambda>i. nms i = None) (rev (take k nl))))" for st'
    using Suc.prems by (intro Suc.IH) auto
  show ?case
  proof (cases "nms (nl ! k)")
    case None
    then have u: "name_or_unknown nms (nl ! k) = ''Unknown''"
      by (simp add: name_or_unknown_def)
    have "render_names nms nl (Suc k) st =
            render_names nms nl k (fst st @ ''Unknown'' @ (if 0 < k then '','' else []),
                  snd st @ [NoNameForNode (nl ! k)])"
      using k(2) None by simp
    also have "\<dots> = Inr (fst st @ comma_join (map (name_or_unknown nms) (rev (take (Suc k) nl))),
              snd st @ map NoNameForNode (filter (\<lambda>i. nms i = None) (rev (take (Suc k) nl))))"
      unfolding ih t using k(1) by (auto simp: comma_join_Cons e u None)
    finally show ?thesis .
  next
    case (Some name)
    then have u: "name_or_unknown nms (nl ! k) = name"
      by (simp add: name_or_unknown_def)
    have "render_names nms nl (Suc k) st =
            render_names nms nl k (fst st @ name @ (if 0 < k then '','' else []), snd st)"
      using k(2) Some by simp
    also have "\<dots> = Inr (fst st @ comma_join (map (name_or_unknown nms) (rev (take (Suc k) nl))),
              snd st @ map NoNameForNode (filter (\<lambda>i. nms i = None) (rev (take (Suc k) nl))))"
      unfolding ih t using k(1) by (auto simp: comma_join_Cons e u Some)
    finally show ?thesis .
  qed
qed

lemma render_names_Inr:
  "k \<le> length nl \<Longrightarrow> render_names nms nl k st = Inr r
   \<Longrightarrow> \<forall>i<k. 0 \<le> nl ! i \<and> nl ! i < MAX_NAMES"
proof (induction k arbitrary: st)
  case 0
  then show ?case by simp
next
  case (Suc k)
  from Suc.prems(2) have b: "0 \<le> nl ! k \<and> nl ! k < MAX_NAMES"
    by (auto split: if_splits)
  from Suc.prems(2) b obtain st' where "render_names nms nl k st' = Inr r"
    by (cases "nms (nl ! k)") auto
  with Suc.IH [of st'] Suc.prems(1) have "\<forall>i<k. 0 \<le> nl ! i \<and> nl ! i < MAX_NAMES" by simp
  with b show ?case by (auto simp: less_Suc_eq)
qed


lemma deep_nodes_funpow:
  "int j \<le> c \<Longrightarrow> c < 2147483648 \<Longrightarrow> (parent_of deep_nodes ^^ j) c = c - int j"
proof (induction j)
  case 0
  then show ?case by simp
next
  case (Suc j)
  then have ih: "(parent_of deep_nodes ^^ j) c = c - int j" by simp
  have i32: "int32_of (c - int j - 1) = c - int j - 1"
    using Suc.prems by (intro int32_of_id) auto
  have "(parent_of deep_nodes ^^ Suc j) c = parent_of deep_nodes ((parent_of deep_nodes ^^ j) c)"
    by simp
  also have "\<dots> = parent_of deep_nodes (c - int j)"
    by (simp only: ih)
  also have "\<dots> = c - int (Suc j)"
    by (simp add: parent_of_def deep_nodes_def int_of_uint_def i32)
  finally show ?case .
qed

lemma walk_deep_nodes:
  "walk_nodes deep_nodes 1030 [] = Some (Inr (chain deep_nodes 1030 1029))"
proof -
  have "\<forall>j<1029. 1 < (parent_of deep_nodes ^^ j) 1030
            \<and> (parent_of deep_nodes ^^ j) 1030 < NODES_SIZE"
    by (auto simp: deep_nodes_funpow NODES_SIZE_def MAX_NAMES_def)
  moreover have "(parent_of deep_nodes ^^ 1029) 1030 \<le> 1"
    by (simp add: deep_nodes_funpow)
  ultimately have "walk_nodes deep_nodes 1030 [] = Some (Inr ([] @ chain deep_nodes 1030 1029))"
    by (rule walk_nodes_chain)
  then show ?thesis by simp
qed

lemma walk_cyclic_nodes: "walk_nodes cyclic_nodes 2 [] = None"
proof (cases "walk_nodes cyclic_nodes 2 []")
  case None
  then show ?thesis .
next
  case (Some r)
  then have "(2::int) \<noteq> 2 \<and> (2::int) \<noteq> 3"
    by (rule walk_nodes_cycle) (simp_all add: cyclic_nodes_def)
  then show ?thesis by simp
qed


lemma get_taxonomy_from_node_returns:
  "walk_nodes nds c [] = Some r \<Longrightarrow> \<exists>r'. get_taxonomy_from_node nds nms c = Some r'"
  by (simp add: get_taxonomy_from_node_def split: sum.splits prod.splits)

lemma get_taxonomy_from_node_Inr:
  assumes "get_taxonomy_from_node nds nms c = Some (Inr (t, msgs))"
  shows "\<exists>n. length (chain nds c n) \<le> 1024
        \<and> t = comma_join (map (name_or_unknown nms) (rev (chain nds c n)))
        \<and> msgs = map NoNameForNode (filter (\<lambda>i. nms i = None) (rev (chain nds c n)))
        \<and> (\<forall>j<n. 1 < (parent_of nds ^^ j) c) \<and> (parent_of nds ^^ n) c \<le> 1"
proof -
  from assms obtain nl where w: "walk_nodes nds c [] = Some (Inr nl)"
    and l: "length nl \<le> 1024"
    and r: "render_names nms nl (length nl) ([], []) = Inr (t, msgs)"
    by (auto simp: get_taxonomy_from_node_def split: option.splits sum.splits prod.splits if_splits)
  from walk_nodes_Inr [OF w] obtain n where n: "nl = chain nds c n"
    "\<forall>j<n. 1 < (parent_of nds ^^ j) c \<and> (parent_of nds ^^ j) c < NODES_SIZE"
    "(parent_of nds ^^ n) c \<le> 1"
    by auto
  from render_names_Inr [OF le_refl r]
  have "\<forall>i<length nl. 0 \<le> nl ! i \<and> nl ! i < MAX_NAMES" .
  from render_names_closed [OF le_refl this, of nms "([], [])"] r
  have "t = comma_join (map (name_or_unknown nms) (rev nl))"
    "msgs = map NoNameForNode (filter (\<lambda>i. nms i = None) (rev nl))"
    by simp_all
  with n l show ?thesis by blast
qed

text \<open>
  Inside the two arrays the lineage is the one the specification describes: the names
  along the chain, from the taxon next to the root down to the queried taxon, which
  comes last.
\<close>

lemma rev_chain_Suc:
  "rev (chain nds c (Suc n)) = rev (chain nds (parent_of nds c) n) @ [c]"
  by (simp add: chain_Suc)

lemma get_taxonomy_from_node_root:
  "get_taxonomy_from_node nds nms 1 = Some (Inr ([], []))"
proof -
  have "walk_nodes nds 1 [] = Some (Inr [])"
    by (subst walk_nodes.simps) simp
  then show ?thesis
    by (simp add: get_taxonomy_from_node_def)
qed

lemma get_taxonomy_from_node_within_capacity:
  assumes root: "(parent_of nds ^^ k) c \<le> 1"
    and rng: "\<forall>j<k. 1 < (parent_of nds ^^ j) c \<and> (parent_of nds ^^ j) c < MAX_NAMES"
    and k: "k \<le> 1024"
    and len: "length (comma_join (map (name_or_unknown nms) (rev (chain nds c k)))) \<le> 1023"
  shows "get_taxonomy_from_node nds nms c =
           Some (Inr (comma_join (map (name_or_unknown nms) (rev (chain nds c k))),
                      map NoNameForNode (filter (\<lambda>i. nms i = None) (rev (chain nds c k)))))"
proof -
  from rng have "\<forall>j<k. 1 < (parent_of nds ^^ j) c \<and> (parent_of nds ^^ j) c < NODES_SIZE"
    by (auto simp: NODES_SIZE_def MAX_NAMES_def)
  from this root have w: "walk_nodes nds c [] = Some (Inr ([] @ chain nds c k))"
    by (rule walk_nodes_chain)
  have "\<forall>i<k. 0 \<le> chain nds c k ! i \<and> chain nds c k ! i < MAX_NAMES"
    using rng by (auto simp: chain_def)
  from render_names_closed [of k "chain nds c k" nms "([], [])"] this
  have "render_names nms (chain nds c k) k ([], []) =
          Inr (comma_join (map (name_or_unknown nms) (rev (chain nds c k))),
               map NoNameForNode (filter (\<lambda>i. nms i = None) (rev (chain nds c k))))"
    by simp
  with w k len show ?thesis
    by (simp add: get_taxonomy_from_node_def)
qed

text \<open>The lineage of taxon 562 of the fixtures, whose chain has three taxa.\<close>

lemma lineage_of_fixture_taxon:
  "get_taxonomy_from_node fixture_nodes fixture_names 562 =
     Some (Inr (''Bacteria,Unknown,Escherichia coli'', [NoNameForNode 561]))"
proof -
  have c: "chain fixture_nodes 562 3 = [562, 561, 2]"
    by code_simp
  have p: "(parent_of fixture_nodes ^^ 0) 562 = 562" "(parent_of fixture_nodes ^^ 1) 562 = 561"
    "(parent_of fixture_nodes ^^ 2) 562 = 2" "(parent_of fixture_nodes ^^ 3) 562 = 1"
    by code_simp+
  have r: "\<forall>j<3. 1 < (parent_of fixture_nodes ^^ j) 562
               \<and> (parent_of fixture_nodes ^^ j) 562 < MAX_NAMES"
  proof (intro allI impI)
    fix j :: nat assume "j < 3"
    then have "j = 0 \<or> j = 1 \<or> j = 2" by arith
    with p show "1 < (parent_of fixture_nodes ^^ j) 562
               \<and> (parent_of fixture_nodes ^^ j) 562 < MAX_NAMES"
      by (auto simp: MAX_NAMES_def)
  qed
  have n: "map (name_or_unknown fixture_names) (rev [562, 561, 2]) =
             [''Bacteria'', ''Unknown'', ''Escherichia coli'']"
    by code_simp
  have f: "filter (\<lambda>i. fixture_names i = None) (rev [562, 561, 2]) = [561]"
    by code_simp
  from get_taxonomy_from_node_within_capacity
      [where nds = fixture_nodes and k = 3 and c = 562 and nms = fixture_names] p(4) r
  show ?thesis
    unfolding c n f by simp
qed

section \<open>The claims about the lineage builder\<close>

text \<open>
  Claim C2. \<^emph>\<open>For every parent table, also one with a cycle, the lineage walk stops when
  it reaches the root or, failing that, after at most 1024 hops: it never executes more
  than 1024 parent-link steps.\<close>

  Neither program has such a bound. The loop of \<open>get_taxonomy_from_node\<close> (and the same
  loop in gi2tax.c) ends only when \<open>current_node \<le> 1\<close>; 1024 is the size of \<open>node_list\<close>,
  which the loop fills without looking at \<open>n\<close>. On the table where 2 and 3 are each
  other's parent the walk from 2 never returns, in both programs. On a table where taxon
  1030 lies 1029 levels below the root the walk makes 1029 steps, 5 of them with a store
  beyond the array.
\<close>

theorem lineage_walk_has_no_bound:
  "walk_nodes cyclic_nodes 2 [] = None
   \<and> get_taxonomy_from_node cyclic_nodes fixture_names 2 = None
   \<and> gi2tax_get_taxonomy_by_gi ((\<lambda>_. 0)(7 := 2)) cyclic_nodes fixture_names 7 = None
   \<and> walk_nodes deep_nodes 1030 [] = Some (Inr (chain deep_nodes 1030 1029))
   \<and> length (chain deep_nodes 1030 1029) = 1029
   \<and> get_taxonomy_from_node deep_nodes fixture_names 1030 = Some (Inl NodeListOverflow)"
proof -
  have g: "int_of_uint 2 = 2" "\<not> gi2tax_MAX_GI \<le> 7"
    by (simp_all add: int_of_uint_def int32_of_def gi2tax_MAX_GI_def)
  show ?thesis
    by (simp add: walk_cyclic_nodes walk_deep_nodes get_taxonomy_from_node_def
        gi2tax_get_taxonomy_by_gi_def g)
qed




text \<open>
  Claim C8. \<^emph>\<open>For every taxon id from which the root is reachable through the parent
  table, the rendered lineage is ordered ancestor-first with the queried taxon last, so
  its last element is the queried taxon's own scientific name when that is present; the
  lineage of the root itself is empty.\<close>

  \<open>get_taxonomy_from_node\<close> appends the names to the caller's \<open>t[1024]\<close> with \<open>strcat\<close> and
  never compares the length of the lineage with the size of that array. In the table
  \<open>deep_nodes\<close> the root is reachable from taxon 10, over the nine taxa 10, 9, ..., 2. When
  each of them has a name of 127 bytes, the lineage has 1151 bytes, and \<open>strcat\<close> writes
  beyond the end of \<open>t\<close>: the caller does not get the lineage of the claim. A chain of
  more than 1024 taxa does the same to \<open>node_list\<close>.

  For the chains and lineages that fit the two arrays the lineage is the one of the
  claim (\<open>get_taxonomy_from_node_within_capacity\<close> with \<open>rev_chain_Suc\<close>, and
  \<open>lineage_of_fixture_taxon\<close> for an instance), and the lineage of the root is empty
  (\<open>get_taxonomy_from_node_root\<close>).
\<close>

theorem lineage_overflows_caller_buffer:
  "chain deep_nodes 10 9 = [10, 9, 8, 7, 6, 5, 4, 3, 2]
   \<and> (parent_of deep_nodes ^^ 9) 10 = 1
   \<and> length (comma_join (map (name_or_unknown long_names) (rev (chain deep_nodes 10 9))))
       = 1151
   \<and> get_taxonomy_from_node deep_nodes long_names 10 = Some (Inl TaxonomyOverflow)"
proof -
  have a: "chain deep_nodes 10 9 = [10, 9, 8, 7, 6, 5, 4, 3, 2]"
    by code_simp
  have b: "(parent_of deep_nodes ^^ 9) 10 = 1"
    by code_simp
  have c: "length (comma_join (map (name_or_unknown long_names) (rev (chain deep_nodes 10 9))))
       = 1151"
    by code_simp
  have d: "get_taxonomy_from_node deep_nodes long_names 10 = Some (Inl TaxonomyOverflow)"
    by code_simp
  from a b c d show ?thesis by blast
qed

section \<open>Facts about the loaders\<close>

lemma load_gi_line_beyond:
  "gi_beyond mx_gi line \<Longrightarrow> \<exists>msgs. load_gi_line mx_gi line st = Inl (1, msgs)"
  unfolding gi_beyond_def gi_field_def load_gi_line_def Let_def
  by (auto split: option.splits prod.splits)

lemma load_gi_line_Inl:
  "load_gi_line mx_gi line st = Inl (s, msgs) \<Longrightarrow> s = 1 \<and> gi_beyond mx_gi line"
  unfolding gi_beyond_def gi_field_def load_gi_line_def Let_def
  by (auto split: option.splits prod.splits if_splits)

lemma load_gi_lines_beyond:
  "list_ex (\<lambda>chunk. gi_beyond mx_gi (cstr chunk)) chunks
   \<Longrightarrow> \<exists>msgs. load_gi_lines mx_gi chunks st = Inl (1, msgs)"
proof (induction chunks arbitrary: st)
  case Nil
  then show ?case by simp
next
  case (Cons chunk rest)
  show ?case
  proof (cases "load_gi_line mx_gi (cstr chunk) st")
    case (Inl ex)
    obtain s msgs where ex: "ex = (s, msgs)" by (cases ex)
    with Inl load_gi_line_Inl [of mx_gi "cstr chunk" st s msgs] have "s = 1" by simp
    with Inl ex show ?thesis by simp
  next
    case (Inr st')
    have "\<not> gi_beyond mx_gi (cstr chunk)"
    proof
      assume "gi_beyond mx_gi (cstr chunk)"
      from load_gi_line_beyond [OF this, of st] Inr show False by auto
    qed
    with Cons.prems have "list_ex (\<lambda>chunk. gi_beyond mx_gi (cstr chunk)) rest" by simp
    from Cons.IH [OF this, of st'] Inr show ?thesis by simp
  qed
qed

lemma load_gi_lines_Inl:
  "load_gi_lines mx_gi chunks st = Inl (s, msgs)
   \<Longrightarrow> s = 1 \<and> list_ex (\<lambda>chunk. gi_beyond mx_gi (cstr chunk)) chunks"
proof (induction chunks arbitrary: st)
  case Nil
  then show ?case by simp
next
  case (Cons chunk rest)
  show ?case
  proof (cases "load_gi_line mx_gi (cstr chunk) st")
    case (Inl ex)
    with Cons.prems have "load_gi_line mx_gi (cstr chunk) st = Inl (s, msgs)" by simp
    from load_gi_line_Inl [OF this] show ?thesis by simp
  next
    case (Inr st')
    with Cons.prems have "load_gi_lines mx_gi rest st' = Inl (s, msgs)" by simp
    from Cons.IH [OF this] show ?thesis by simp
  qed
qed

lemma gi2tax_load_gi_line_beyond:
  "gi_beyond gi2tax_MAX_GI line
   \<Longrightarrow> \<exists>msg. gi2tax_load_gi_line line st = (fst st, snd st @ [msg])"
  unfolding gi_beyond_def gi_field_def gi2tax_load_gi_line_def Let_def
  by (auto split: option.splits prod.splits)

lemma get_name_fields_loop_set:
  "x \<in> set (get_name_fields_loop s done cur)
   \<Longrightarrow> set x \<subseteq> set s \<union> set cur \<union> \<Union> (set ` set done)"
proof (induction s arbitrary: "done" cur)
  case Nil
  then show ?case by auto
next
  case (Cons c s)
  show ?case
  proof (cases "c = TAB")
    case True
    with Cons.prems have "x \<in> set (get_name_fields_loop s (done @ [cur]) [])" by simp
    from Cons.IH [OF this] show ?thesis by auto
  next
    case False
    with Cons.prems have "x \<in> set (get_name_fields_loop s done (cur @ [c]))" by simp
    from Cons.IH [OF this] show ?thesis by auto
  qed
qed

lemma get_name_fields_well_formed:
  assumes n: "6 < length (get_name_fields_loop s [] [])"
    and m: "length (get_name_fields_loop s [] []) \<le> 16"
    and f: "filter (\<lambda>x. 127 < length x) (get_name_fields_loop s [] []) = []"
  shows "get_name_fields s rows =
           Inr (\<lambda>j. if j < length (get_name_fields_loop s [] [])
                     then get_name_fields_loop s [] [] ! j else rows j,
                get_name_fields_loop s [] [] ! 0, get_name_fields_loop s [] [] ! 2,
                get_name_fields_loop s [] [] ! 4, get_name_fields_loop s [] [] ! 6)"
proof -
  let ?fs = "get_name_fields_loop s [] []"
  from f have "\<forall>x\<in>set ?fs. \<not> 127 < length x"
    by (simp add: filter_empty_conv)
  then have b: "\<not> 127 < length (?fs ! j)" if "j < length ?fs" for j
    using that by simp
  have "\<not> 127 < length (?fs ! 0)"
    by (rule b) (use n in arith)
  moreover have "\<not> 127 < length (?fs ! 2)"
    by (rule b) (use n in arith)
  moreover have "\<not> 127 < length (?fs ! 4)"
    by (rule b) (use n in arith)
  moreover have "\<not> 127 < length (?fs ! 6)"
    by (rule b) (use n in arith)
  moreover from n have "?fs \<noteq> []" "2 < length ?fs" "4 < length ?fs"
    by auto
  ultimately show ?thesis
    using n m f
    by (simp add: get_name_fields_def Let_def)
qed

text \<open>A line with its seven fields changes the table by its entry and not otherwise.\<close>

lemma load_name_line_well_formed:
  assumes "well_formed_name_line (cstr chunk)"
  shows "load_name_line (cstr chunk) rows nms =
           Inr (\<lambda>j. if j < length (get_name_fields_loop (cstr chunk) [] [])
                     then get_name_fields_loop (cstr chunk) [] [] ! j else rows j,
                case name_entry (cstr chunk) of
                  None \<Rightarrow> nms
                | Some (i, name) \<Rightarrow> nms(i := Some name))"
proof -
  let ?fs = "get_name_fields_loop (cstr chunk) [] []"
  from assms have n: "6 < length ?fs" and m: "length ?fs \<le> 16"
    and f: "filter (\<lambda>x. 127 < length x) ?fs = []"
    and r: "case name_entry (cstr chunk) of None \<Rightarrow> True | Some (i, name) \<Rightarrow> i < MAX_NAMES"
    by (simp_all add: well_formed_name_line_def Let_def)
  note g = get_name_fields_well_formed [OF n m f, of rows]
  from n have "?fs ! 6 \<in> set ?fs" by simp
  from get_name_fields_loop_set [OF this] have "set (?fs ! 6) \<subseteq> set (cstr chunk)"
    by simp
  then have "NUL \<notin> set (?fs ! 6)" using cstr_no_NUL [of chunk] by auto
  moreover have "NUL \<notin> set ''scientific name''" by simp
  ultimately have z: "(strcmp (?fs ! 6) ''scientific name'' = 0) = (?fs ! 6 = ''scientific name'')"
    by (rule strcmp_zero)
  show ?thesis
  proof (cases "?fs ! 6 = ''scientific name''")
    case True
    with n have e: "name_entry (cstr chunk) = Some (uint_of (atoi (?fs ! 0)), ?fs ! 2)"
      by (simp add: name_entry_def Let_def)
    with r have "uint_of (atoi (?fs ! 0)) < MAX_NAMES" by simp
    with True show ?thesis
      by (simp add: load_name_line_def g z e Let_def)
  next
    case False
    with n have e: "name_entry (cstr chunk) = None"
      by (simp add: name_entry_def Let_def)
    with False show ?thesis
      by (simp add: load_name_line_def g z e Let_def)
  qed
qed

text \<open>
  After a load of lines that all have their seven fields the table holds, for every
  taxon id, the name of the last entry for it: \<open>map_of\<close> looks the entries up from the end
  of the file.
\<close>

lemma load_name_lines_well_formed:
  "list_all (\<lambda>chunk. well_formed_name_line (cstr chunk)) chunks
   \<Longrightarrow> \<exists>rows'. load_name_lines chunks rows nms =
         Inr (rows', \<lambda>i. case map_of (rev (List.map_filter name_entry (map cstr chunks))) i of
                           None \<Rightarrow> nms i
                         | Some name \<Rightarrow> Some name)"
proof (induction chunks arbitrary: rows nms)
  case Nil
  then show ?case by (simp add: List.map_filter_simps)
next
  case (Cons chunk rest)
  from Cons.prems have w: "well_formed_name_line (cstr chunk)"
    and ws: "list_all (\<lambda>chunk. well_formed_name_line (cstr chunk)) rest"
    by simp_all
  let ?es = "rev (List.map_filter name_entry (map cstr rest))"
  let ?rows1 = "\<lambda>j. if j < length (get_name_fields_loop (cstr chunk) [] [])
                     then get_name_fields_loop (cstr chunk) [] [] ! j else rows j"
  define nms1 where "nms1 = (case name_entry (cstr chunk) of
                  None \<Rightarrow> nms
                | Some (i, name) \<Rightarrow> nms(i := Some name))"
  have s: "load_name_line (cstr chunk) rows nms = Inr (?rows1, nms1)"
    unfolding nms1_def using w by (rule load_name_line_well_formed)
  from Cons.IH [OF ws, of ?rows1 nms1] obtain rows' where
    ih: "load_name_lines rest ?rows1 nms1 =
           Inr (rows', \<lambda>i. case map_of ?es i of None \<Rightarrow> nms1 i | Some name \<Rightarrow> Some name)"
    by blast
  have "(\<lambda>i. case map_of ?es i of None \<Rightarrow> nms1 i | Some name \<Rightarrow> Some name) =
        (\<lambda>i. case map_of (rev (List.map_filter name_entry (map cstr (chunk # rest)))) i of
                None \<Rightarrow> nms i
              | Some name \<Rightarrow> Some name)"
  proof (cases "name_entry (cstr chunk)")
    case None
    then have n1: "nms1 = nms" by (simp add: nms1_def)
    show ?thesis
      unfolding n1 by (simp add: List.map_filter_simps None)
  next
    case (Some p)
    obtain j name where p: "p = (j, name)" by (cases p)
    with Some have n1: "nms1 = nms(j := Some name)" by (simp add: nms1_def)
    show ?thesis
      unfolding n1
      by (auto simp: List.map_filter_simps Some p map_add_def intro!: ext split: option.splits)
  qed
  with s ih show ?case by simp
qed

text \<open>The names file of the fixtures, loaded: of the two scientific names for taxon 562
  the second is kept, and the synonym between them is not.\<close>

lemma load_fixture_names_file:
  "\<exists>nms. load_name_list fixture_names_file rows0 = Inr nms
      \<and> nms 562 = Some ''Escherichia coli'' \<and> nms 2 = Some ''Bacteria'' \<and> nms 3 = None"
proof -
  have w: "list_all (\<lambda>chunk. well_formed_name_line (cstr chunk)) (read_lines fixture_names_file 0)"
    by code_simp
  have e: "List.map_filter name_entry (map cstr (read_lines fixture_names_file 0)) =
     [(562, ''Bacillus coli''), (562, ''Escherichia coli''), (2, ''Bacteria'')]"
    by code_simp
  from load_name_lines_well_formed [OF w, of rows0 "\<lambda>_. None"] obtain rows' where
    "load_name_lines (read_lines fixture_names_file 0) rows0 (\<lambda>_. None) =
       Inr (rows', \<lambda>i. case map_of (rev [(562, ''Bacillus coli''), (562, ''Escherichia coli''),
                                        (2::int, ''Bacteria'')]) i of
                         None \<Rightarrow> None
                       | Some name \<Rightarrow> Some name)"
    unfolding e by blast
  then show ?thesis
    by (simp add: load_name_list_def)
qed

section \<open>The claims about the loaders\<close>

text \<open>
  Claim C5. \<^emph>\<open>During the load of the GI index, every line whose gi is at or beyond the
  bound \<open>max_gi\<close> aborts the whole run (non-zero exit); such a line is never merely
  logged and skipped, and no entry is stored for it.\<close>

  The loader of acc2tax.c calls \<open>exit(1)\<close>. The loader of gi2tax.c, with its fixed bound
  \<open>MAX_GI\<close>, prints the same message and goes on with the next line: on the fixture file
  it ends with one message, the entries of the lines before and after the offending one,
  and no entry for that line.
\<close>

theorem gi2tax_load_skips_gi_beyond_bound:
  "gi_field (''2000000000'' @ [TAB] @ ''200'' @ [NL]) = Some 2000000000
   \<and> gi2tax_MAX_GI \<le> 2000000000
   \<and> snd (gi2tax_load_gi_to_node_list fixture_gi_file) = [GIOutOfRange 2000000000]
   \<and> fst (gi2tax_load_gi_to_node_list fixture_gi_file) 5 = 100
   \<and> fst (gi2tax_load_gi_to_node_list fixture_gi_file) 6 = 7
   \<and> fst (gi2tax_load_gi_to_node_list fixture_gi_file) 2000000000 = 0"
  by code_simp

text \<open>
  What holds, for a line that has both its fields. In acc2tax.c the line ends the load
  with exit status 1, and a load is ended in this way by such a line only. In gi2tax.c
  the line adds one message, leaves the table as it is, and the load goes on with the
  rest of the file.
\<close>

theorem gi_beyond_bound_on_load:
  "(gi_beyond mx_gi line \<longrightarrow> (\<exists>msgs. load_gi_line mx_gi line st = Inl (1, msgs)))
   \<and> (list_ex (\<lambda>chunk. gi_beyond mx_gi (cstr chunk)) chunks \<longrightarrow>
        (\<exists>msgs. load_gi_lines mx_gi chunks st = Inl (1, msgs)))
   \<and> (load_gi_lines mx_gi chunks st = Inl (s, msgs) \<longrightarrow>
        s = 1 \<and> list_ex (\<lambda>chunk. gi_beyond mx_gi (cstr chunk)) chunks)
   \<and> (gi_beyond gi2tax_MAX_GI line \<longrightarrow>
        (\<exists>msg. gi2tax_load_gi_line line st2 = (fst st2, snd st2 @ [msg])))
   \<and> (gi_beyond gi2tax_MAX_GI (cstr chunk) \<longrightarrow>
        (\<exists>msg. gi2tax_load_gi_lines (chunk # rest) st2 =
                 gi2tax_load_gi_lines rest (fst st2, snd st2 @ [msg])))"
proof (intro conjI impI)
  assume "gi_beyond mx_gi line"
  then show "\<exists>msgs. load_gi_line mx_gi line st = Inl (1, msgs)"
    by (rule load_gi_line_beyond)
next
  assume "list_ex (\<lambda>chunk. gi_beyond mx_gi (cstr chunk)) chunks"
  then show "\<exists>msgs. load_gi_lines mx_gi chunks st = Inl (1, msgs)"
    by (rule load_gi_lines_beyond)
next
  assume a: "load_gi_lines mx_gi chunks st = Inl (s, msgs)"
  from load_gi_lines_Inl [OF a] show "s = 1"
    and "list_ex (\<lambda>chunk. gi_beyond mx_gi (cstr chunk)) chunks" by simp_all
next
  assume "gi_beyond gi2tax_MAX_GI line"
  then show "\<exists>msg. gi2tax_load_gi_line line st2 = (fst st2, snd st2 @ [msg])"
    by (rule gi2tax_load_gi_line_beyond)
next
  assume "gi_beyond gi2tax_MAX_GI (cstr chunk)"
  from gi2tax_load_gi_line_beyond [OF this, of st2]
  show "\<exists>msg. gi2tax_load_gi_lines (chunk # rest) st2 =
                 gi2tax_load_gi_lines rest (fst st2, snd st2 @ [msg])"
    by auto
qed

theorem gi_beyond_bound_on_load_witness:
  "gi_beyond 1050000000 (''2000000000'' @ [TAB] @ ''200'' @ [NL])
   \<and> (\<exists>msgs. load_gi_line 1050000000 (''2000000000'' @ [TAB] @ ''200'' @ [NL]) (\<lambda>_. 0, []) =
          Inl (1, msgs))
   \<and> list_ex (\<lambda>chunk. gi_beyond 1050000000 (cstr chunk)) (read_lines fixture_gi_file 0)
   \<and> (\<exists>msgs. load_gi_to_node_list 1050000000 fixture_gi_file = Inl (1, msgs))
   \<and> gi_beyond gi2tax_MAX_GI (''2000000000'' @ [TAB] @ ''200'' @ [NL])
   \<and> (\<exists>msg. gi2tax_load_gi_line (''2000000000'' @ [TAB] @ ''200'' @ [NL]) (\<lambda>_. 0, []) =
        (\<lambda>_. 0, [msg]))
   \<and> (\<exists>msg. gi2tax_load_gi_lines
                [''2000000000'' @ [TAB] @ ''200'' @ [NL], ''6'' @ [TAB] @ ''7'' @ [NL]] (\<lambda>_. 0, []) =
              gi2tax_load_gi_lines [''6'' @ [TAB] @ ''7'' @ [NL]] (\<lambda>_. 0, [msg]))"
proof -
  let ?L = "''2000000000'' @ [TAB] @ ''200'' @ [NL]"
  have h0: "gi_beyond 1050000000 ?L" by code_simp
  have h1: "list_ex (\<lambda>chunk. gi_beyond 1050000000 (cstr chunk)) (read_lines fixture_gi_file 0)"
    by code_simp
  have h2: "gi_beyond gi2tax_MAX_GI ?L" by code_simp
  have h3: "gi_beyond gi2tax_MAX_GI (cstr ?L)" by code_simp
  note t = gi_beyond_bound_on_load [of 1050000000 ?L "(\<lambda>_. 0, [])"
      "read_lines fixture_gi_file 0" _ _ "(\<lambda>_. 0, [])" ?L "[''6'' @ [TAB] @ ''7'' @ [NL]]"]
  from t h0 have z: "\<exists>msgs. load_gi_line 1050000000 ?L (\<lambda>_. 0, []) = Inl (1, msgs)"
    by blast
  from t h1 obtain msgs where
    m: "load_gi_lines 1050000000 (read_lines fixture_gi_file 0) (\<lambda>_. 0, []) = Inl (1, msgs)"
    by blast
  then have a: "\<exists>msgs. load_gi_to_node_list 1050000000 fixture_gi_file = Inl (1, msgs)"
    unfolding load_gi_to_node_list_def by blast
  from t [of 1 msgs] m
  have "list_ex (\<lambda>chunk. gi_beyond 1050000000 (cstr chunk)) (read_lines fixture_gi_file 0)"
    by blast
  from t h2 have "\<exists>msg. gi2tax_load_gi_line ?L (\<lambda>_. 0, []) =
          (fst (\<lambda>_::int. 0::int, [] :: diag list), snd (\<lambda>_::int. 0::int, [] :: diag list) @ [msg])"
    by blast
  then have b: "\<exists>msg. gi2tax_load_gi_line ?L (\<lambda>_. 0, []) = (\<lambda>_. 0, [msg])"
    by simp
  from t h3 have "\<exists>msg. gi2tax_load_gi_lines (?L # [''6'' @ [TAB] @ ''7'' @ [NL]]) (\<lambda>_. 0, []) =
      gi2tax_load_gi_lines [''6'' @ [TAB] @ ''7'' @ [NL]]
        (fst (\<lambda>_::int. 0::int, [] :: diag list), snd (\<lambda>_::int. 0::int, [] :: diag list) @ [msg])"
    by blast
  then have c: "\<exists>msg. gi2tax_load_gi_lines [?L, ''6'' @ [TAB] @ ''7'' @ [NL]] (\<lambda>_. 0, []) =
              gi2tax_load_gi_lines [''6'' @ [TAB] @ ''7'' @ [NL]] (\<lambda>_. 0, [msg])"
    by simp
  from h0 z h1 a h2 b c show ?thesis by blast
qed

text \<open>
  Claim C6. \<^emph>\<open>During the load of the names table, a line adds an entry only when its
  name class is exactly \<open>scientific name\<close>, lines of any other class leave the table
  unchanged, and of several scientific names for one taxon id the last one is kept.\<close>

  \<open>get_name_fields\<close> copies the class from row 6 of \<open>fields\<close> whether the line had a seventh
  field or not, and \<open>load_name_list\<close> does not ask how many fields there were. A line that
  ends before its name class finds in row 6 what the line before left there.
  \<open>short_names_file\<close> has a complete line of class \<open>scientific name\<close> for taxon 562 and,
  behind it, a line of the three fields \<open>7\<close>, \<open>|\<close> and \<open>Foo\<close>, which stands for no entry.
  Whatever the stack held at the start, the load stores a name for taxon 7.
  \<open>load_node_list\<close> and \<open>load_gi_to_node_list\<close> test for a missing field and skip the line.

  On files whose lines all have their seven fields the table is the one of the claim
  (\<open>load_name_line_well_formed\<close>, \<open>load_name_lines_well_formed\<close>).
\<close>

theorem load_name_list_line_without_class:
  "get_name_fields_loop (cstr short_name_line) [] [] = [''7'', ''|'', ''Foo'' @ [NL]]
   \<and> name_entry (cstr short_name_line) = None
   \<and> (\<exists>nms. load_name_list short_names_file rows0 = Inr nms
         \<and> nms 562 = Some ''Escherichia coli'' \<and> nms 7 = Some (''Foo'' @ [NL]))"
proof -
  let ?l1 = "names_row ''562'' ''Escherichia coli'' ''scientific name''"
  have rl: "read_lines short_names_file 0 = [?l1, short_name_line]"
    by code_simp
  have f1: "get_name_fields_loop (cstr ?l1) [] [] =
      [''562'', ''|'', ''Escherichia coli'', ''|'', [], ''|'', ''scientific name'', ''|'' @ [NL]]"
    by code_simp
  have f2: "get_name_fields_loop (cstr short_name_line) [] [] = [''7'', ''|'', ''Foo'' @ [NL]]"
    by code_simp
  have e2: "name_entry (cstr short_name_line) = None"
    by code_simp
  have w1: "well_formed_name_line (cstr ?l1)"
    by code_simp
  have e1: "name_entry (cstr ?l1) = Some (562, ''Escherichia coli'')"
    by code_simp
  have a7: "uint_of (atoi ''7'') = 7"
    by code_simp
  have sc: "strcmp ''scientific name'' ''scientific name'' = 0"
    by code_simp
  define rows1 where "rows1 =
      (\<lambda>j. if j < length [''562'', ''|'', ''Escherichia coli'', ''|'', [], ''|'',
                          ''scientific name'', ''|'' @ [NL]]
           then [''562'', ''|'', ''Escherichia coli'', ''|'', [], ''|'',
                 ''scientific name'', ''|'' @ [NL]] ! j
           else rows0 j)"
  have r4: "rows1 4 = []" and r6: "rows1 6 = ''scientific name''"
    by (simp_all add: rows1_def)
  have s1: "load_name_line (cstr ?l1) rows0 (\<lambda>_. None) =
      Inr (rows1, (\<lambda>_. None)(562 := Some ''Escherichia coli''))"
    using load_name_line_well_formed [OF w1, of rows0 "\<lambda>_. None"]
    unfolding e1 f1 rows1_def by simp
  have s2: "\<exists>rows2. load_name_line (cstr short_name_line) rows1 nms1 =
      Inr (rows2, nms1(7 := Some (''Foo'' @ [NL])))" for nms1
    by (simp add: load_name_line_def get_name_fields_def f2 r4 r6 a7 sc MAX_NAMES_def Let_def)
  from s2 [of "(\<lambda>_. None)(562 := Some ''Escherichia coli'')"] obtain rows2 where
    s2': "load_name_line (cstr short_name_line) rows1
            ((\<lambda>_. None)(562 := Some ''Escherichia coli'')) =
          Inr (rows2, ((\<lambda>_. None)(562 := Some ''Escherichia coli''))
                         (7 := Some (''Foo'' @ [NL])))"
    by blast
  have "\<exists>nms. load_name_list short_names_file rows0 = Inr nms
         \<and> nms 562 = Some ''Escherichia coli'' \<and> nms 7 = Some (''Foo'' @ [NL])"
    unfolding load_name_list_def rl
    by (simp add: s1 s2')
  with f2 e2 show ?thesis by blast
qed

section \<open>The claims about the batch driver\<close>

text \<open>
  Claim C4. \<^emph>\<open>The two unresolved outcomes are distinct: in GI mode an id that does not
  resolve to a taxon (the lookup yields 0, or the GI is outside the domain) produces a
  diagnostic and no output line at all, whereas an accession resolved to a record with
  taxid 0 produces an output line with the lineage \<open>Unknown\<close>, without traversal.\<close>

  The first half fails. \<open>process_request_file\<close> skips a GI below 1; for every other GI it
  calls \<open>get_taxonomy_by_gi\<close> and writes a line, whatever that function found. For GI 7 of
  the fixture, which has no taxon, the output has a line.
\<close>

theorem unresolved_gi_is_written:
  "int_of_uint (fixture_gi 7) = 0
   \<and> map_option (map_sum id (\<lambda>st. (out_bytes st, diags st)))
        (process_request_file (fixture_globals True) (''5'' @ [NL] @ ''7'' @ [NL]) [] []) =
      Some (Inr (''5'' @ [TAB] @ ''Bacteria,Unknown,Escherichia coli'' @ [NL] @
                 ''7'' @ [TAB] @ ''Bacteria,Unknown,Escherichia coli'' @ [NL],
                 [NoNameForNode 561, GINodeInvalid 7 0]))"
  by code_simp

text \<open>
  What holds, for one line of the request file. In GI mode a value below 1 gives a
  diagnostic and no output; a value of at least 1 that is beyond \<open>max_gi\<close> or has no
  taxon gives a diagnostic and the output line \<open><gi>\t<field>\n\<close>, where nothing is said
  here about the field. In accession mode a record found with taxid 0 gives the line
  \<open><accession>\tUnknown\n\<close> and no diagnostic, without a call of the lineage builder; an
  accession that is not found gives a diagnostic and no output.
\<close>

theorem batch_driver_unresolved_outcomes:
  "(is_gi g \<and> atoi (chomp (cstr chunk)) < 1 \<longrightarrow>
      process_request_line g chunk st =
        Some (Inr (st\<lparr>count := count st + 1,
                       diags := diags st @ [BadGIInRequestFile (atoi (chomp (cstr chunk)))]\<rparr>)))
   \<and> (is_gi g \<and> 1 \<le> atoi (chomp (cstr chunk))
        \<and> (max_gi g \<le> uint_of (atoi (chomp (cstr chunk)))
             \<or> int_of_uint (gi_to_node g (atoi (chomp (cstr chunk)))) = 0) \<longrightarrow>
        (\<exists>field msg. process_request_line g chunk st =
           Some (Inr (st\<lparr>count := count st + 1, t_buf := field,
                          diags := diags st @ [msg],
                          out_bytes := out_bytes st @ printf_i (atoi (chomp (cstr chunk)))
                                         @ [TAB] @ field @ [NL]\<rparr>))))
   \<and> (\<not> is_gi g \<and> is_accession g
        \<and> find_accession (acc_file g) (chomp (cstr chunk)) (acc_pos st) (line_buf st) =
             Some (Inr (1, fp', buffer', flds))
        \<and> f_taxid flds = 0 \<longrightarrow>
        process_request_line g chunk st =
          Some (Inr (st\<lparr>count := count st + 1, acc_pos := fp', line_buf := buffer',
                         t_buf := ''Unknown'',
                         out_bytes := out_bytes st @ chomp (cstr chunk) @ [TAB]
                                        @ ''Unknown'' @ [NL]\<rparr>)))
   \<and> (\<not> is_gi g \<and> is_accession g
        \<and> find_accession (acc_file g) (chomp (cstr chunk)) (acc_pos st) (line_buf st) =
             Some (Inr (0, fp', buffer', flds)) \<longrightarrow>
        process_request_line g chunk st =
          Some (Inr (st\<lparr>count := count st + 1, acc_pos := fp', line_buf := buffer',
                         diags := diags st @ [CouldntFind (chomp (cstr chunk))]\<rparr>)))"
proof (intro conjI impI)
  assume "is_gi g \<and> atoi (chomp (cstr chunk)) < 1"
  then show "process_request_line g chunk st =
        Some (Inr (st\<lparr>count := count st + 1,
                       diags := diags st @ [BadGIInRequestFile (atoi (chomp (cstr chunk)))]\<rparr>))"
    by (simp add: process_request_line_def Let_def)
next
  assume a: "is_gi g \<and> 1 \<le> atoi (chomp (cstr chunk))
        \<and> (max_gi g \<le> uint_of (atoi (chomp (cstr chunk)))
             \<or> int_of_uint (gi_to_node g (atoi (chomp (cstr chunk)))) = 0)"
  define gi where "gi = atoi (chomp (cstr chunk))"
  from a have "\<exists>msg. get_taxonomy_by_gi g gi (t_buf st) = Some (Inr (t_buf st, [msg]))"
    by (auto simp: get_taxonomy_by_gi_def Let_def gi_def)
  then obtain msg where "get_taxonomy_by_gi g gi (t_buf st) = Some (Inr (t_buf st, [msg]))"
    by blast
  with a have "process_request_line g chunk st =
           Some (Inr (st\<lparr>count := count st + 1, t_buf := t_buf st,
                          diags := diags st @ [msg],
                          out_bytes := out_bytes st @ printf_i (atoi (chomp (cstr chunk)))
                                         @ [TAB] @ t_buf st @ [NL]\<rparr>))"
    by (simp add: process_request_line_def Let_def gi_def)
  then show "\<exists>field msg. process_request_line g chunk st =
           Some (Inr (st\<lparr>count := count st + 1, t_buf := field,
                          diags := diags st @ [msg],
                          out_bytes := out_bytes st @ printf_i (atoi (chomp (cstr chunk)))
                                         @ [TAB] @ field @ [NL]\<rparr>))"
    by blast
next
  assume "\<not> is_gi g \<and> is_accession g
        \<and> find_accession (acc_file g) (chomp (cstr chunk)) (acc_pos st) (line_buf st) =
             Some (Inr (1, fp', buffer', flds))
        \<and> f_taxid flds = 0"
  then show "process_request_line g chunk st =
          Some (Inr (st\<lparr>count := count st + 1, acc_pos := fp', line_buf := buffer',
                         t_buf := ''Unknown'',
                         out_bytes := out_bytes st @ chomp (cstr chunk) @ [TAB]
                                        @ ''Unknown'' @ [NL]\<rparr>))"
    by (simp add: process_request_line_def Let_def)
next
  assume "\<not> is_gi g \<and> is_accession g
        \<and> find_accession (acc_file g) (chomp (cstr chunk)) (acc_pos st) (line_buf st) =
             Some (Inr (0, fp', buffer', flds))"
  then show "process_request_line g chunk st =
          Some (Inr (st\<lparr>count := count st + 1, acc_pos := fp', line_buf := buffer',
                         diags := diags st @ [CouldntFind (chomp (cstr chunk))]\<rparr>))"
    by (simp add: process_request_line_def Let_def)
qed


theorem batch_driver_unresolved_outcomes_witness:
  "process_request_line (fixture_globals True) (''0'' @ [NL])
       \<lparr>t_buf = ''x'', line_buf = [], acc_pos = 61, out_bytes = [], diags = [], count = 0\<rparr> =
     Some (Inr \<lparr>t_buf = ''x'', line_buf = [], acc_pos = 61, out_bytes = [],
                diags = [BadGIInRequestFile 0], count = 1\<rparr>)
   \<and> (\<exists>field msg. process_request_line (fixture_globals True) (''7'' @ [NL])
       \<lparr>t_buf = ''x'', line_buf = [], acc_pos = 61, out_bytes = [], diags = [], count = 0\<rparr> =
     Some (Inr \<lparr>t_buf = field, line_buf = [], acc_pos = 61,
                out_bytes = ''7'' @ [TAB] @ field @ [NL], diags = [msg], count = 1\<rparr>))
   \<and> process_request_line (fixture_globals False) (''A0009'' @ [NL])
       \<lparr>t_buf = ''x'', line_buf = [], acc_pos = 61, out_bytes = [], diags = [], count = 0\<rparr> =
     Some (Inr \<lparr>t_buf = ''Unknown'', line_buf = ''A0009'', acc_pos = 44,
                out_bytes = ''A0009'' @ [TAB] @ ''Unknown'' @ [NL], diags = [], count = 1\<rparr>)
   \<and> process_request_line (fixture_globals False) (''A0003'' @ [NL])
       \<lparr>t_buf = ''x'', line_buf = [], acc_pos = 61, out_bytes = [], diags = [], count = 0\<rparr> =
     Some (Inr \<lparr>t_buf = ''x'', line_buf = ''A0005'', acc_pos = 31, out_bytes = [],
                diags = [CouldntFind ''A0003''], count = 1\<rparr>)"
proof -
  let ?st = "\<lparr>t_buf = ''x'', line_buf = [], acc_pos = 61, out_bytes = [], diags = [], count = 0\<rparr>"
  have g: "is_gi (fixture_globals True)" "\<not> is_gi (fixture_globals False)"
    "is_accession (fixture_globals False)"
    by (simp_all add: fixture_globals_def)
  have a1: "atoi (chomp (cstr (''0'' @ [NL]))) = 0" by code_simp
  have a2: "atoi (chomp (cstr (''7'' @ [NL]))) = 7" by code_simp
  have p2: "printf_i 7 = ''7''" by code_simp
  have b2: "int_of_uint (gi_to_node (fixture_globals True) 7) = 0" by code_simp
  have a3: "chomp (cstr (''A0009'' @ [NL])) = ''A0009''" by code_simp
  have a4: "chomp (cstr (''A0003'' @ [NL])) = ''A0003''" by code_simp
  have f3: "find_accession (acc_file (fixture_globals False)) ''A0009'' 61 [] =
      Some (Inr (1, 44, ''A0009'',
        \<lparr>f_accession = Some ''A0009'', f_version = Some ''2'', f_taxid = 0, f_gi = 13\<rparr>))"
    by code_simp
  have f4: "find_accession (acc_file (fixture_globals False)) ''A0003'' 61 [] =
      Some (Inr (0, 31, ''A0005'',
        \<lparr>f_accession = Some ''A0005'', f_version = Some ''1'', f_taxid = 562, f_gi = 12\<rparr>))"
    by code_simp
  from batch_driver_unresolved_outcomes [of "fixture_globals True" "''0'' @ [NL]" ?st,
      unfolded a1] g(1)
  have w1: "process_request_line (fixture_globals True) (''0'' @ [NL]) ?st =
     Some (Inr \<lparr>t_buf = ''x'', line_buf = [], acc_pos = 61, out_bytes = [],
                diags = [BadGIInRequestFile 0], count = 1\<rparr>)"
    by simp
  from batch_driver_unresolved_outcomes [of "fixture_globals True" "''7'' @ [NL]" ?st,
      unfolded a2] g(1) b2
  have "\<exists>field msg. process_request_line (fixture_globals True) (''7'' @ [NL]) ?st =
           Some (Inr (?st\<lparr>count := count ?st + 1, t_buf := field,
                          diags := diags ?st @ [msg],
                          out_bytes := out_bytes ?st @ printf_i 7 @ [TAB] @ field @ [NL]\<rparr>))"
    by simp
  then have w2: "\<exists>field msg. process_request_line (fixture_globals True) (''7'' @ [NL]) ?st =
     Some (Inr \<lparr>t_buf = field, line_buf = [], acc_pos = 61,
                out_bytes = ''7'' @ [TAB] @ field @ [NL], diags = [msg], count = 1\<rparr>)"
    by (simp add: p2)
  from batch_driver_unresolved_outcomes [of "fixture_globals False" "''A0009'' @ [NL]" ?st
      44 "''A0009''" "\<lparr>f_accession = Some ''A0009'', f_version = Some ''2'', f_taxid = 0, f_gi = 13\<rparr>",
      unfolded a3]
    g(2,3) f3
  have w3: "process_request_line (fixture_globals False) (''A0009'' @ [NL]) ?st =
     Some (Inr \<lparr>t_buf = ''Unknown'', line_buf = ''A0009'', acc_pos = 44,
                out_bytes = ''A0009'' @ [TAB] @ ''Unknown'' @ [NL], diags = [], count = 1\<rparr>)"
    by simp
  from batch_driver_unresolved_outcomes [of "fixture_globals False" "''A0003'' @ [NL]" ?st
      31 "''A0005''" "\<lparr>f_accession = Some ''A0005'', f_version = Some ''1'', f_taxid = 562, f_gi = 12\<rparr>",
      unfolded a4]
    g(2,3) f4
  have w4: "process_request_line (fixture_globals False) (''A0003'' @ [NL]) ?st =
     Some (Inr \<lparr>t_buf = ''x'', line_buf = ''A0005'', acc_pos = 31, out_bytes = [],
                diags = [CouldntFind ''A0003''], count = 1\<rparr>)"
    by simp
  from w1 w2 w3 w4 show ?thesis by blast
qed

text \<open>
  Claim C10. \<^emph>\<open>Two runs of the batch driver over the same input and the same database
  write the same bytes: the output is a function of the input lines, the tables and the
  accession file.\<close>

  The output also depends on what the array \<open>t\<close> of \<open>process_request_file\<close> holds when the
  function is entered. \<open>get_taxonomy_by_gi\<close> of acc2tax.c returns on its error paths
  without writing to the buffer (gi2tax.c starts with \<open>taxonomy[0] = 0\<close>, acc2tax.c has
  that statement in \<open>get_taxonomy_from_node\<close> only), and the driver prints the buffer.
  When the first line of the request file is a GI without a taxon, the line written for
  it shows the bytes that were in \<open>t\<close> before.
\<close>

theorem output_depends_on_uninitialised_buffer:
  "map_option (map_sum id out_bytes)
     (process_request_file (fixture_globals True) (''7'' @ [NL]) ''Bacteria'' []) =
     Some (Inr (''7'' @ [TAB] @ ''Bacteria'' @ [NL]))
   \<and> map_option (map_sum id out_bytes)
     (process_request_file (fixture_globals True) (''7'' @ [NL]) ''Archaea'' []) =
     Some (Inr (''7'' @ [TAB] @ ''Archaea'' @ [NL]))"
  by code_simp

end
